theory Spec2Isabelle
  imports Complex_Main "HOL-Library.Char_ord" "HOL-Library.List_Lexorder"
begin

section \<open>The churn notebook: data preparation, folds and grid searches\<close>

text \<open>
  The repository is one notebook, \<^verbatim>\<open>Lab_Sklearn_Magic\<close>. Its code cells are
  \<^item> cell 3: drop five columns, split features \<open>X\<close> from the target \<open>Y\<close>, build four folds;
  \<^item> cell 5: grid search over logistic regression;
  \<^item> cell 8: grid search over the pipeline scaler, logistic regression;
  \<^item> cell 11: grid search over the pipeline polynomial features, scaler, logistic regression.

  The notebook's own statements are embedded as they are written. The routines it calls
  (\<^verbatim>\<open>DataFrame.drop\<close>, \<^verbatim>\<open>KFold\<close>, \<^verbatim>\<open>GridSearchCV\<close>,
  \<^verbatim>\<open>PolynomialFeatures\<close>) belong to pandas and scikit-learn; their discrete behaviour
  (which columns, which indices, which grid points, which exception) is written out after the
  library versions the notebook imports (\<^verbatim>\<open>sklearn.cross_validation\<close>,
  \<^verbatim>\<open>sklearn.grid_search\<close>), and so is the area under the ROC curve. The numerics of
  fitting a classifier and of scaling are parameters of the model: an \<open>estimator\<close> record
  for the classifier and a \<open>transformer\<close> record for the scaler. Floating-point numbers are
  idealised as \<^typ>\<open>real\<close>.
\<close>

subsection \<open>Exceptions\<close>

datatype error =
  ValueError string
  | KeyError string
  | IndexError string

text \<open>A statement after one that raised does not run.\<close>

definition and_then :: "error + 'a \<Rightarrow> ('a \<Rightarrow> error + 'b) \<Rightarrow> error + 'b" where
  "and_then r f = (case r of Inl e \<Rightarrow> Inl e | Inr v \<Rightarrow> f v)"

subsection \<open>Tables\<close>

text \<open>
  A \<^verbatim>\<open>DataFrame\<close>: row labels, column labels, and the cells row by row. A
  \<^verbatim>\<open>Series\<close>: row labels, a name and one value per row.
\<close>

record DataFrame =
  index :: "nat list"
  columns :: "string list"
  vals :: "real list list"

record Series =
  sindex :: "nat list"
  sname :: string
  svals :: "real list"

text \<open>
  What every frame read from a CSV file satisfies: one label per row, every row as wide as
  the header, and no column label twice.
\<close>

definition rectangular :: "DataFrame \<Rightarrow> bool" where
  "rectangular df \<longleftrightarrow>
     length (index df) = length (vals df) \<and>
     list_all (\<lambda>r. length r = length (columns df)) (vals df) \<and>
     distinct (columns df)"

text \<open>\<^verbatim>\<open>df.shape[0]\<close>\<close>

definition shape0 :: "DataFrame \<Rightarrow> nat" where
  "shape0 df = length (vals df)"

text \<open>The cell of row \<open>r\<close> (given with the header \<open>cols\<close>) under column \<open>c\<close>.\<close>

definition cell :: "string list \<Rightarrow> real list \<Rightarrow> string \<Rightarrow> real option" where
  "cell cols r c = map_of (zip cols r) c"

text \<open>
  \<^verbatim>\<open>df.drop(labels, 1)\<close>: a new frame without the columns named; the frame
  \<open>df\<close> itself is left as it is (\<^verbatim>\<open>inplace=False\<close>). A label that is not a
  column raises (\<^verbatim>\<open>ValueError: labels [...] not contained in axis\<close>; later pandas
  versions raise \<^verbatim>\<open>KeyError\<close> here).
\<close>

definition drop_cols :: "DataFrame \<Rightarrow> string list \<Rightarrow> error + DataFrame" where
  "drop_cols df labels =
     (if list_ex (\<lambda>l. l \<notin> set (columns df)) labels
      then Inl (ValueError ''labels not contained in axis'')
      else Inr (df\<lparr>columns := filter (\<lambda>c. c \<notin> set labels) (columns df),
                    vals := map (\<lambda>r. map snd (filter (\<lambda>(c, v). c \<notin> set labels) (zip (columns df) r)))
                              (vals df)\<rparr>))"

text \<open>\<^verbatim>\<open>df[key]\<close>: the column as a series, \<^verbatim>\<open>KeyError\<close> when there is none.\<close>

definition getitem :: "DataFrame \<Rightarrow> string \<Rightarrow> error + Series" where
  "getitem df key =
     (if key \<notin> set (columns df) then Inl (KeyError key)
      else Inr \<lparr>sindex = index df, sname = key,
                svals = map (\<lambda>r. the (cell (columns df) r key)) (vals df)\<rparr>)"

subsection \<open>Folds\<close>

text \<open>
  \<^verbatim>\<open>KFold(n, n_folds)\<close> of \<^verbatim>\<open>sklearn.cross_validation\<close>, without shuffling
  (the default): the indices \<open>0..<n\<close> are cut into \<open>n_folds\<close> consecutive test groups, the
  first \<open>n mod n_folds\<close> of size \<open>n div n_folds + 1\<close> and the others of size
  \<open>n div n_folds\<close>; the training indices of a group are all the others, in order. Fewer
  than two folds, or more folds than rows, raise \<^verbatim>\<open>ValueError\<close>.
\<close>

type_synonym fold = "nat list \<times> nat list"

definition fold_sizes :: "nat \<Rightarrow> nat \<Rightarrow> nat list" where
  "fold_sizes n n_folds =
     map (\<lambda>i. n div n_folds + (if i < n mod n_folds then 1 else 0)) [0..<n_folds]"

fun test_indices :: "nat \<Rightarrow> nat list \<Rightarrow> nat list list" where
  "test_indices current [] = []"
| "test_indices current (fold_size # rest) =
     [current..<current + fold_size] # test_indices (current + fold_size) rest"

definition KFold :: "nat \<Rightarrow> nat \<Rightarrow> error + fold list" where
  "KFold n n_folds =
     (if n_folds \<le> 1 then Inl (ValueError ''k-fold cross validation requires at least one train / test split'')
      else if n_folds > n then Inl (ValueError ''Cannot have number of folds greater than the number of samples'')
      else Inr (map (\<lambda>test. (filter (\<lambda>i. i \<notin> set test) [0..<n], test))
                  (test_indices 0 (fold_sizes n n_folds))))"

subsection \<open>Cell 3: features, target and folds\<close>

definition dropvar_list :: "string list" where
  "dropvar_list = [''incalls'', ''creditcd'', ''marryyes'', ''travel'', ''pcown'']"

text \<open>The variables of the notebook after cell 3 has run.\<close>

record env =
  data :: DataFrame
  data_subset :: DataFrame
  X :: DataFrame
  Y :: Series
  kfolds :: "fold list"

definition cell3 :: "DataFrame \<Rightarrow> error + env" where
  "cell3 d =
     and_then (drop_cols d dropvar_list) (\<lambda>sub.
     and_then (drop_cols sub [''churndep'']) (\<lambda>x.
     and_then (getitem sub ''churndep'') (\<lambda>y.
     and_then (KFold (shape0 sub) 4) (\<lambda>folds.
     Inr \<lparr>data = d, data_subset = sub, X = x, Y = y, kfolds = folds\<rparr>))))"

subsection \<open>Hyperparameter grids\<close>

text \<open>
  A grid is a dictionary from parameter names to candidate values; a grid point is a
  dictionary from the same names to one value each. \<^verbatim>\<open>ParameterGrid\<close> sorts the
  items by name and runs through the product of the value lists, the last name varying
  fastest.
\<close>

datatype pval = PInt int | PFloat real | PStr string | PBool bool

type_synonym params = "(string \<times> pval) list"

type_synonym grid = "(string \<times> pval list) list"

definition ParameterGrid :: "grid \<Rightarrow> params list" where
  "ParameterGrid p =
     (let items = sort_key fst p in
      if items = [] then [[]]
      else map (\<lambda>v. zip (map fst items) v) (product_lists (map snd items)))"

text \<open>
  \<^verbatim>\<open>10**i\<close>: an integer for \<open>i \<ge> 0\<close>, a float below. Then
  \<^verbatim>\<open>[10**i for i in range(-3, 3)]\<close>.
\<close>

definition pow10 :: "int \<Rightarrow> pval" where
  "pow10 i = (if 0 \<le> i then PInt (10 ^ nat i) else PFloat (1 / 10 ^ nat (- i)))"

definition C_values :: "pval list" where
  "C_values = map pow10 [-3..2]"

definition param_grid_lr :: grid where
  "param_grid_lr = [(''C'', C_values), (''penalty'', [PStr ''l1'', PStr ''l2''])]"

definition parameters_scaler :: grid where
  "parameters_scaler = [(''lr__C'', C_values), (''lr__penalty'', [PStr ''l1'', PStr ''l2''])]"

definition parameters_poly :: grid where
  "parameters_poly =
     [(''polyfeat__degree'', [PInt 1, PInt 2]),
      (''polyfeat__interaction_only'', [PBool True, PBool False]),
      (''lr__C'', C_values),
      (''lr__penalty'', [PStr ''l1'', PStr ''l2''])]"

subsection \<open>Polynomial features\<close>

text \<open>
  \<^verbatim>\<open>PolynomialFeatures(degree=2, interaction_only=False, include_bias=True)\<close>. The
  notebook builds it with no argument, and the grid of cell 11 sets \<open>degree\<close> and
  \<open>interaction_only\<close>; \<open>include_bias\<close> keeps its default.
\<close>

record PolynomialFeatures =
  degree :: int
  interaction_only :: bool
  include_bias :: bool

definition PolynomialFeatures_init :: PolynomialFeatures where
  "PolynomialFeatures_init = \<lparr>degree = 2, interaction_only = False, include_bias = True\<rparr>"

text \<open>
  \<open>set_params\<close>: the names \<open>degree\<close>, \<open>interaction_only\<close> and \<open>include_bias\<close> are set,
  any other name raises. (Values of another type than the grid's, which Python would store
  and trip over later, are refused here.)
\<close>

fun poly_set_params :: "params \<Rightarrow> PolynomialFeatures \<Rightarrow> error + PolynomialFeatures" where
  "poly_set_params [] pf = Inr pf"
| "poly_set_params ((key, PInt d) # rest) pf =
     (if key = ''degree'' then poly_set_params rest (pf\<lparr>degree := d\<rparr>)
      else Inl (ValueError ''Invalid parameter for estimator PolynomialFeatures''))"
| "poly_set_params ((key, PBool b) # rest) pf =
     (if key = ''interaction_only'' then poly_set_params rest (pf\<lparr>interaction_only := b\<rparr>)
      else if key = ''include_bias'' then poly_set_params rest (pf\<lparr>include_bias := b\<rparr>)
      else Inl (ValueError ''Invalid parameter for estimator PolynomialFeatures''))"
| "poly_set_params ((key, v) # rest) pf =
     Inl (ValueError ''Invalid parameter for estimator PolynomialFeatures'')"

text \<open>\<^verbatim>\<open>itertools.combinations(xs, r)\<close> and \<^verbatim>\<open>combinations_with_replacement(xs, r)\<close>.\<close>

fun combinations :: "'a list \<Rightarrow> nat \<Rightarrow> 'a list list" where
  "combinations xs 0 = [[]]"
| "combinations [] (Suc r) = []"
| "combinations (x # xs) (Suc r) = map ((#) x) (combinations xs r) @ combinations xs (Suc r)"

fun combinations_w_r :: "'a list \<Rightarrow> nat \<Rightarrow> 'a list list" where
  "combinations_w_r xs 0 = [[]]"
| "combinations_w_r [] (Suc r) = []"
| "combinations_w_r (x # xs) (Suc r) =
     map ((#) x) (combinations_w_r (x # xs) r) @ combinations_w_r xs (Suc r)"

text \<open>
  The index tuples of the output columns: all combinations of the input columns of the
  sizes \<open>start, \<dots>, degree\<close>, where \<open>start\<close> is 0 with the bias column and 1 without.
\<close>

definition poly_combinations :: "nat \<Rightarrow> PolynomialFeatures \<Rightarrow> nat list list" where
  "poly_combinations n_features pf =
     (let comb = (if interaction_only pf then combinations else combinations_w_r);
          start = (if include_bias pf then 0 else 1)
      in concat (map (\<lambda>i. comb [0..<n_features] i) [start..<nat (degree pf + 1)]))"

text \<open>
  \<^verbatim>\<open>check_array\<close>, which \<open>fit\<close> and \<open>transform\<close> both run on their input first: an
  array without rows or without columns is refused; otherwise its shape is returned.
\<close>

definition check_array :: "real list list \<Rightarrow> error + (nat \<times> nat)" where
  "check_array xs =
     (case xs of
        [] \<Rightarrow> Inl (ValueError ''Found array with 0 sample(s)'')
      | r # _ \<Rightarrow> if length r = 0 then Inl (ValueError ''Found array with 0 feature(s)'')
                 else Inr (length xs, length r))"

text \<open>\<open>fit\<close> records the number of input columns.\<close>

definition poly_fit :: "PolynomialFeatures \<Rightarrow> real list list \<Rightarrow> error + nat" where
  "poly_fit pf xs = and_then (check_array xs) (\<lambda>(n_samples, n_features). Inr n_features)"

text \<open>
  \<open>transform\<close>: the rows must be as wide as those seen by \<open>fit\<close>; every output column is
  the product of the input columns of its tuple.
\<close>

definition poly_transform :: "PolynomialFeatures \<Rightarrow> nat \<Rightarrow> real list list \<Rightarrow> error + real list list" where
  "poly_transform pf n_input_features xs =
     and_then (check_array xs) (\<lambda>(n_samples, n_features).
     if list_ex (\<lambda>r. length r \<noteq> n_input_features) xs
     then Inl (ValueError ''X shape does not match training shape'')
     else Inr (map (\<lambda>r. map (\<lambda>c. prod_list (map (\<lambda>j. r ! j) c))
                           (poly_combinations n_input_features pf)) xs))"

subsection \<open>Estimators, transformers and pipelines\<close>

text \<open>
  What the search needs of an estimator (a classifier or a pipeline ending in one): setting
  the parameters of a grid point, fitting on training rows, and the decision values of the
  fitted model on other rows. Each may raise. A transformer is fitted likewise and
  transforms rows.
\<close>

record ('c, 'm) estimator =
  set_params :: "params \<Rightarrow> error + 'c"
  fit :: "'c \<Rightarrow> real list list \<Rightarrow> real list \<Rightarrow> error + 'm"
  decision_function :: "'m \<Rightarrow> real list list \<Rightarrow> error + real list"

record ('c, 't) transformer =
  tset_params :: "params \<Rightarrow> error + 'c"
  tfit :: "'c \<Rightarrow> real list list \<Rightarrow> real list \<Rightarrow> error + 't"
  transform :: "'t \<Rightarrow> real list list \<Rightarrow> error + real list list"

text \<open>\<open>fit_transform\<close>: fit, then transform the same rows.\<close>

definition fit_transform ::
  "('c, 't) transformer \<Rightarrow> 'c \<Rightarrow> real list list \<Rightarrow> real list \<Rightarrow> error + ('t \<times> real list list)" where
  "fit_transform tr c xs ys =
     and_then (tfit tr c xs ys) (\<lambda>t.
     and_then (transform tr t xs) (\<lambda>xt.
     Inr (t, xt)))"

text \<open>The step \<^verbatim>\<open>PolynomialFeatures()\<close>; fitted, it knows its number of input columns.\<close>

definition polyfeat :: "(PolynomialFeatures, PolynomialFeatures \<times> nat) transformer" where
  "polyfeat =
     \<lparr>tset_params = (\<lambda>p. poly_set_params p PolynomialFeatures_init),
      tfit = (\<lambda>pf xs ys. and_then (poly_fit pf xs) (\<lambda>n. Inr (pf, n))),
      transform = (\<lambda>(pf, n) xs. poly_transform pf n xs)\<rparr>"

text \<open>
  A parameter name \<^verbatim>\<open>step__name\<close> of a pipeline is cut at the first \<^verbatim>\<open>__\<close>: the
  part before it names the step, the rest is the parameter of that step.
\<close>

fun split_key :: "string \<Rightarrow> string \<times> string option" where
  "split_key (a # b # cs) =
     (if a = CHR ''_'' \<and> b = CHR ''_'' then ([], Some cs)
      else (case split_key (b # cs) of (name, sub) \<Rightarrow> (a # name, sub)))"
| "split_key cs = (cs, None)"

definition step_params :: "string \<Rightarrow> params \<Rightarrow> params" where
  "step_params name p =
     concat (map (\<lambda>(key, v). case split_key key of
                                (n, Some sub) \<Rightarrow> if n = name then [(sub, v)] else []
                              | (n, None) \<Rightarrow> []) p)"

text \<open>
  A pipeline is built from its last step backwards. Its parameters are handed to the steps
  by name; fitting fits and applies each transformer in turn and fits the last step on the
  result; the decision values are those of the last step on the transformed rows. A name
  whose step is not in the pipeline raises. (Names without \<^verbatim>\<open>__\<close>, which would
  replace a whole step, do not occur in the notebook's grids and are refused.)
\<close>

definition final_step :: "string \<Rightarrow> ('c, 'm) estimator \<Rightarrow> ('c, 'm) estimator" where
  "final_step name est = est\<lparr>set_params := (\<lambda>p. set_params est (step_params name p))\<rparr>"

definition with_step ::
  "string \<Rightarrow> ('c, 't) transformer \<Rightarrow> ('d, 'm) estimator \<Rightarrow> ('c \<times> 'd, 't \<times> 'm) estimator" where
  "with_step name tr rest =
     \<lparr>set_params = (\<lambda>p.
        and_then (tset_params tr (step_params name p)) (\<lambda>c.
        and_then (set_params rest p) (\<lambda>d.
        Inr (c, d)))),
      fit = (\<lambda>(c, d) xs ys.
        and_then (fit_transform tr c xs ys) (\<lambda>(t, xt).
        and_then (fit rest d xt ys) (\<lambda>m.
        Inr (t, m)))),
      decision_function = (\<lambda>(t, m) xs.
        and_then (transform tr t xs) (\<lambda>xt.
        decision_function rest m xt))\<rparr>"

definition Pipeline :: "string list \<Rightarrow> ('c, 'm) estimator \<Rightarrow> ('c, 'm) estimator" where
  "Pipeline names est =
     est\<lparr>set_params := (\<lambda>p.
       if list_ex (\<lambda>(key, v). case split_key key of
                                (n, Some sub) \<Rightarrow> n \<notin> set names
                              | (n, None) \<Rightarrow> True) p
       then Inl (ValueError ''Invalid parameter for estimator Pipeline'')
       else set_params est p)\<rparr>"

subsection \<open>The ROC-AUC scorer\<close>

text \<open>Positional row selection (\<^verbatim>\<open>iloc\<close>); an index past the end raises.\<close>

definition safe_indexing :: "'a list \<Rightarrow> nat list \<Rightarrow> error + 'a list" where
  "safe_indexing xs indices =
     (if list_ex (\<lambda>i. length xs \<le> i) indices
      then Inl (IndexError ''positional indexers are out-of-bounds'')
      else Inr (map (\<lambda>i. xs ! i) indices))"

text \<open>
  The area under the ROC curve of scores against a target whose positive class is 1. The
  library sorts the rows by score, walks down the distinct scores counting true and false
  positives and takes the trapezoidal area under the resulting curve; that area is the
  share of (positive, negative) pairs that the scores put in the right order, a tie
  counting one half, which is how it is written here.
\<close>

definition pair_auc :: "real list \<Rightarrow> real list \<Rightarrow> real" where
  "pair_auc y_true y_score =
     (let pos = map snd (filter (\<lambda>(y, s). y = 1) (zip y_true y_score));
          neg = map snd (filter (\<lambda>(y, s). y \<noteq> 1) (zip y_true y_score))
      in (\<Sum>p\<leftarrow>pos. \<Sum>n\<leftarrow>neg. if n < p then 1 else if n = p then 1 / 2 else 0)
           / (real (length pos) * real (length neg)))"

text \<open>
  The classes of a target are its sorted distinct values (\<^verbatim>\<open>np.unique\<close>).
  \<^verbatim>\<open>roc_auc_score\<close> needs two, \<open>0, 1\<close> or \<open>-1, 1\<close> (the positive class is 1), and
  raises otherwise; then it is the area under the ROC curve. The area is the argument \<open>auc\<close>
  of the definitions that follow; in the notebook (\<^verbatim>\<open>scoring = 'roc_auc'\<close>) it is
  \<open>pair_auc\<close>.
\<close>

definition unique :: "real list \<Rightarrow> real list" where
  "unique ys = sort (remdups ys)"

definition roc_auc_score :: "(real list \<Rightarrow> real list \<Rightarrow> real) \<Rightarrow> real list \<Rightarrow> real list \<Rightarrow> error + real" where
  "roc_auc_score auc y_true y_score =
     (if length (unique y_true) \<noteq> 2
      then Inl (ValueError ''Only one class present in y_true. ROC AUC score is not defined in that case.'')
      else if unique y_true \<noteq> [0, 1] \<and> unique y_true \<noteq> [- 1, 1]
      then Inl (ValueError ''Data is not binary and pos_label is not specified'')
      else Inr (auc y_true y_score))"

text \<open>
  The scorer \<^verbatim>\<open>'roc_auc'\<close>: a target that is not integer-valued or has more than two
  classes is refused; then the decision values of the fitted model on the rows are scored.
\<close>

definition scorer ::
  "('c, 'm) estimator \<Rightarrow> (real list \<Rightarrow> real list \<Rightarrow> real) \<Rightarrow> 'm \<Rightarrow> real list list \<Rightarrow> real list \<Rightarrow> error + real" where
  "scorer est auc m xs ys =
     (if list_ex (\<lambda>v. v \<noteq> of_int \<lfloor>v\<rfloor>) ys
      then Inl (ValueError ''continuous format is not supported'')
      else if 2 < length (unique ys)
      then Inl (ValueError ''multiclass format is not supported'')
      else and_then (decision_function est m xs) (\<lambda>y_pred. roc_auc_score auc ys y_pred))"

text \<open>
  One fit and one score: the estimator is given the parameters of the grid point, fitted on
  the training rows of the fold and scored on its test rows. The result is the score and
  the number of test rows.
\<close>

definition fit_and_score ::
  "('c, 'm) estimator \<Rightarrow> (real list \<Rightarrow> real list \<Rightarrow> real) \<Rightarrow> real list list \<Rightarrow> real list \<Rightarrow>
     nat list \<Rightarrow> nat list \<Rightarrow> params \<Rightarrow> error + (real \<times> nat)" where
  "fit_and_score est auc xs ys train test parameters =
     and_then (set_params est parameters) (\<lambda>c.
     and_then (safe_indexing xs train) (\<lambda>x_train.
     and_then (safe_indexing ys train) (\<lambda>y_train.
     and_then (safe_indexing xs test) (\<lambda>x_test.
     and_then (safe_indexing ys test) (\<lambda>y_test.
     and_then (fit est c x_train y_train) (\<lambda>m.
     and_then (scorer est auc m x_test y_test) (\<lambda>test_score.
     Inr (test_score, length x_test))))))))"



subsection \<open>Exhaustive grid search\<close>

text \<open>Results in order; the first exception ends the run (\<^verbatim>\<open>error_score='raise'\<close>).\<close>

fun collect :: "(error + 'a) list \<Rightarrow> error + 'a list" where
  "collect [] = Inr []"
| "collect (Inl e # rs) = Inl e"
| "collect (Inr v # rs) = (case collect rs of Inl e \<Rightarrow> Inl e | Inr vs \<Rightarrow> Inr (v # vs))"

text \<open>
  The score of a grid point (\<^verbatim>\<open>iid=True\<close>): the mean of its fold scores, each weighted
  by the number of test rows of its fold.
\<close>

definition mean_validation_score :: "(real \<times> nat) list \<Rightarrow> real" where
  "mean_validation_score out =
     (\<Sum>(this_score, n_test)\<leftarrow>out. this_score * real n_test) / real (\<Sum>(this_score, n_test)\<leftarrow>out. n_test)"

text \<open>An entry of \<^verbatim>\<open>grid_scores_\<close>: parameters, mean score, fold scores.\<close>

type_synonym grid_score = "params \<times> real \<times> real list"

definition evaluate_candidate ::
  "('c, 'm) estimator \<Rightarrow> (real list \<Rightarrow> real list \<Rightarrow> real) \<Rightarrow> real list list \<Rightarrow> real list \<Rightarrow>
     fold list \<Rightarrow> params \<Rightarrow> error + grid_score" where
  "evaluate_candidate est auc xs ys folds parameters =
     (case collect (map (\<lambda>(train, test). fit_and_score est auc xs ys train test parameters) folds) of
        Inl e \<Rightarrow> Inl e
      | Inr out \<Rightarrow> Inr (parameters, mean_validation_score out, map fst out))"

text \<open>
  The fitted search object: the attributes \<^verbatim>\<open>cv\<close>, \<^verbatim>\<open>grid_scores_\<close>,
  \<^verbatim>\<open>best_params_\<close>, \<^verbatim>\<open>best_score_\<close> and \<^verbatim>\<open>best_estimator_\<close>.
\<close>

record 'm GridSearchCV =
  cv :: "fold list"
  grid_scores :: "grid_score list"
  best_params :: params
  best_score :: real
  best_estimator :: 'm

text \<open>
  \<^verbatim>\<open>GridSearchCV(est, param_grid, cv=folds, scoring='roc_auc').fit(X, Y)\<close>: every grid
  point is evaluated on every fold; the best is the first entry of the scores sorted by mean
  score, largest first (the sort is stable); the estimator is fitted again with the best
  parameters on all rows. (Without folds the scores cannot be grouped by grid point, and
  Python's \<^verbatim>\<open>range\<close> raises.)
\<close>

definition GridSearchCV_fit ::
  "('c, 'm) estimator \<Rightarrow> (real list \<Rightarrow> real list \<Rightarrow> real) \<Rightarrow> grid \<Rightarrow> fold list \<Rightarrow>
     real list list \<Rightarrow> real list \<Rightarrow> error + 'm GridSearchCV" where
  "GridSearchCV_fit est auc p folds xs ys =
     (if length ys \<noteq> length xs
      then Inl (ValueError ''Target variable (y) has a different number of samples than data (X)'')
      else if folds = [] then Inl (ValueError ''range() arg 3 must not be zero'')
      else
        case collect (map (evaluate_candidate est auc xs ys folds) (ParameterGrid p)) of
          Inl e \<Rightarrow> Inl e
        | Inr scores \<Rightarrow>
            (case sort_key (\<lambda>(parameters, mean, fold_scores). - mean) scores of
               [] \<Rightarrow> Inl (IndexError ''list index out of range'')
             | best # _ \<Rightarrow>
                 and_then (set_params est (fst best)) (\<lambda>c.
                 and_then (fit est c xs ys) (\<lambda>m.
                 Inr \<lparr>cv = folds, grid_scores = scores, best_params = fst best,
                      best_score = fst (snd best), best_estimator = m\<rparr>))))"

subsection \<open>Cells 5, 8 and 11: the three searches\<close>

text \<open>
  The classifier \<^verbatim>\<open>LogisticRegression()\<close> and the transformer
  \<^verbatim>\<open>StandardScaler()\<close> are parameters. Cell 8 builds the pipeline of the steps
  \<open>scaler\<close>, \<open>lr\<close>; cell 11 the pipeline of the steps \<open>polyfeat\<close>, \<open>scaler\<close>, \<open>lr\<close>.
\<close>

definition pipeline ::
  "('s, 't) transformer \<Rightarrow> ('c, 'm) estimator \<Rightarrow> ('s \<times> 'c, 't \<times> 'm) estimator" where
  "pipeline StandardScaler LogisticRegression =
     Pipeline [''scaler'', ''lr'']
       (with_step ''scaler'' StandardScaler
       (final_step ''lr'' LogisticRegression))"

definition pipeline_poly ::
  "('s, 't) transformer \<Rightarrow> ('c, 'm) estimator \<Rightarrow>
     (PolynomialFeatures \<times> 's \<times> 'c, (PolynomialFeatures \<times> nat) \<times> 't \<times> 'm) estimator" where
  "pipeline_poly StandardScaler LogisticRegression =
     Pipeline [''polyfeat'', ''scaler'', ''lr'']
       (with_step ''polyfeat'' polyfeat
       (with_step ''scaler'' StandardScaler
       (final_step ''lr'' LogisticRegression)))"

text \<open>
  All three searches are given the folds of cell 3 and the same \<open>X\<close> and \<open>Y\<close>. The record
  holds the variables of the notebook after cell 11.
\<close>

record ('m, 't) notebook =
  prep :: env
  lr_grid_search :: "'m GridSearchCV"
  lr_grid_search_scaler :: "('t \<times> 'm) GridSearchCV"
  lr_grid_search_poly :: "((PolynomialFeatures \<times> nat) \<times> 't \<times> 'm) GridSearchCV"
  best_1 :: real
  best_2 :: real
  best_3 :: real

definition run_notebook ::
  "('c, 'm) estimator \<Rightarrow> ('s, 't) transformer \<Rightarrow> (real list \<Rightarrow> real list \<Rightarrow> real) \<Rightarrow>
     DataFrame \<Rightarrow> error + ('m, 't) notebook" where
  "run_notebook LogisticRegression StandardScaler auc d =
     and_then (cell3 d) (\<lambda>v.
     and_then (GridSearchCV_fit LogisticRegression auc param_grid_lr
                 (kfolds v) (vals (X v)) (svals (Y v))) (\<lambda>s1.
     and_then (GridSearchCV_fit (pipeline StandardScaler LogisticRegression) auc parameters_scaler
                 (kfolds v) (vals (X v)) (svals (Y v))) (\<lambda>s2.
     and_then (GridSearchCV_fit (pipeline_poly StandardScaler LogisticRegression) auc parameters_poly
                 (kfolds v) (vals (X v)) (svals (Y v))) (\<lambda>s3.
     Inr \<lparr>prep = v, lr_grid_search = s1, lr_grid_search_scaler = s2, lr_grid_search_poly = s3,
          best_1 = best_score s1, best_2 = best_score s2, best_3 = best_score s3\<rparr>))))"

subsection \<open>Sample inputs\<close>

text \<open>The header of the churn file, as cell 1 prints it, and eight rows in shuffled order.\<close>

definition churn_columns :: "string list" where
  "churn_columns = [''revenue'', ''outcalls'', ''incalls'', ''months'', ''eqpdays'', ''webcap'',
     ''marryyes'', ''travel'', ''pcown'', ''creditcd'', ''retcalls'', ''churndep'']"

definition churn_sample :: DataFrame where
  "churn_sample = \<lparr>index = [5, 2, 7, 0, 3, 6, 1, 4], columns = churn_columns,
     vals = [[48, 10, 2, 30, 371, 1, 0, 0, 1, 1, 0, 0],
             [31, 0, 0, 12, 240, 1, 1, 0, 0, 1, 0, 1],
             [83, 25, 8, 17, 98, 1, 0, 1, 1, 1, 0, 1],
             [29, 1, 0, 36, 1013, 0, 1, 0, 0, 0, 0, 0],
             [57, 6, 3, 9, 270, 1, 0, 0, 0, 1, 1, 0],
             [40, 3, 1, 22, 434, 1, 1, 0, 1, 1, 0, 1],
             [65, 14, 5, 11, 333, 1, 0, 0, 0, 0, 0, 1],
             [35, 2, 0, 26, 780, 0, 1, 0, 0, 1, 0, 0]]\<rparr>"

text \<open>The variables after cell 3 on these rows.\<close>

definition churn_sample_env :: env where
  "churn_sample_env = \<lparr>data = churn_sample,
     data_subset = \<lparr>index = [5, 2, 7, 0, 3, 6, 1, 4],
       columns = [''revenue'', ''outcalls'', ''months'', ''eqpdays'', ''webcap'', ''retcalls'', ''churndep''],
       vals = [[48, 10, 30, 371, 1, 0, 0], [31, 0, 12, 240, 1, 0, 1], [83, 25, 17, 98, 1, 0, 1],
               [29, 1, 36, 1013, 0, 0, 0], [57, 6, 9, 270, 1, 1, 0], [40, 3, 22, 434, 1, 0, 1],
               [65, 14, 11, 333, 1, 0, 1], [35, 2, 26, 780, 0, 0, 0]]\<rparr>,
     X = \<lparr>index = [5, 2, 7, 0, 3, 6, 1, 4],
       columns = [''revenue'', ''outcalls'', ''months'', ''eqpdays'', ''webcap'', ''retcalls''],
       vals = [[48, 10, 30, 371, 1, 0], [31, 0, 12, 240, 1, 0], [83, 25, 17, 98, 1, 0],
               [29, 1, 36, 1013, 0, 0], [57, 6, 9, 270, 1, 1], [40, 3, 22, 434, 1, 0],
               [65, 14, 11, 333, 1, 0], [35, 2, 26, 780, 0, 0]]\<rparr>,
     Y = \<lparr>sindex = [5, 2, 7, 0, 3, 6, 1, 4], sname = ''churndep'',
       svals = [0, 1, 1, 0, 0, 1, 1, 0]\<rparr>,
     kfolds = [([2, 3, 4, 5, 6, 7], [0, 1]), ([0, 1, 4, 5, 6, 7], [2, 3]),
               ([0, 1, 2, 3, 6, 7], [4, 5]), ([0, 1, 2, 3, 4, 5], [6, 7])]\<rparr>"

text \<open>
  The same eight rows in another shuffled order, in which the first two rows are both
  churners: the test group of the first fold has one class only.
\<close>

definition churn_degenerate :: DataFrame where
  "churn_degenerate = \<lparr>index = [2, 7, 5, 0, 3, 6, 1, 4], columns = churn_columns,
     vals = [[31, 0, 0, 12, 240, 1, 1, 0, 0, 1, 0, 1],
             [83, 25, 8, 17, 98, 1, 0, 1, 1, 1, 0, 1],
             [48, 10, 2, 30, 371, 1, 0, 0, 1, 1, 0, 0],
             [29, 1, 0, 36, 1013, 0, 1, 0, 0, 0, 0, 0],
             [57, 6, 3, 9, 270, 1, 0, 0, 0, 1, 1, 0],
             [40, 3, 1, 22, 434, 1, 1, 0, 1, 1, 0, 1],
             [65, 14, 5, 11, 333, 1, 0, 0, 0, 0, 0, 1],
             [35, 2, 0, 26, 780, 0, 1, 0, 0, 1, 0, 0]]\<rparr>"

definition churn_degenerate_env :: env where
  "churn_degenerate_env = \<lparr>data = churn_degenerate,
     data_subset = \<lparr>index = [2, 7, 5, 0, 3, 6, 1, 4],
       columns = [''revenue'', ''outcalls'', ''months'', ''eqpdays'', ''webcap'', ''retcalls'', ''churndep''],
       vals = [[31, 0, 12, 240, 1, 0, 1], [83, 25, 17, 98, 1, 0, 1], [48, 10, 30, 371, 1, 0, 0],
               [29, 1, 36, 1013, 0, 0, 0], [57, 6, 9, 270, 1, 1, 0], [40, 3, 22, 434, 1, 0, 1],
               [65, 14, 11, 333, 1, 0, 1], [35, 2, 26, 780, 0, 0, 0]]\<rparr>,
     X = \<lparr>index = [2, 7, 5, 0, 3, 6, 1, 4],
       columns = [''revenue'', ''outcalls'', ''months'', ''eqpdays'', ''webcap'', ''retcalls''],
       vals = [[31, 0, 12, 240, 1, 0], [83, 25, 17, 98, 1, 0], [48, 10, 30, 371, 1, 0],
               [29, 1, 36, 1013, 0, 0], [57, 6, 9, 270, 1, 1], [40, 3, 22, 434, 1, 0],
               [65, 14, 11, 333, 1, 0], [35, 2, 26, 780, 0, 0]]\<rparr>,
     Y = \<lparr>sindex = [2, 7, 5, 0, 3, 6, 1, 4], sname = ''churndep'',
       svals = [1, 1, 0, 0, 0, 1, 1, 0]\<rparr>,
     kfolds = [([2, 3, 4, 5, 6, 7], [0, 1]), ([0, 1, 4, 5, 6, 7], [2, 3]),
               ([0, 1, 2, 3, 6, 7], [4, 5]), ([0, 1, 2, 3, 4, 5], [6, 7])]\<rparr>"

text \<open>A frame with four rows whose target column has three values.\<close>

definition churn_multiclass :: DataFrame where
  "churn_multiclass = \<lparr>index = [1, 3, 0, 2], columns = churn_columns,
     vals = [[48, 10, 2, 30, 371, 1, 0, 0, 1, 1, 0, 0],
             [31, 0, 0, 12, 240, 1, 1, 0, 0, 1, 0, 1],
             [83, 25, 8, 17, 98, 1, 0, 1, 1, 1, 0, 2],
             [29, 1, 0, 36, 1013, 0, 1, 0, 0, 0, 0, 2]]\<rparr>"

text \<open>
  Stand-ins for the library's numerics, for running the model on the sample rows. A
  classifier whose parameters only pick a column (the second under an \<open>l1\<close> penalty, the
  fourth otherwise) and which ranks rows by the negated value in that column. A scaler
  that leaves the rows as they are.
\<close>

definition column_ranker :: "(nat, nat) estimator" where
  "column_ranker =
     \<lparr>set_params = (\<lambda>p. Inr (if (''penalty'', PStr ''l1'') \<in> set p then 1 else 3)),
      fit = (\<lambda>j xs ys. Inr j),
      decision_function = (\<lambda>j xs. Inr (map (\<lambda>r. - (r ! j)) xs))\<rparr>"

definition no_scaling :: "(unit, unit) transformer" where
  "no_scaling =
     \<lparr>tset_params = (\<lambda>p. Inr ()),
      tfit = (\<lambda>c xs ys. Inr ()),
      transform = (\<lambda>t xs. Inr xs)\<rparr>"



section \<open>Properties\<close>

subsection \<open>Columns and rows of the prepared tables\<close>

lemma fst_filter_zip:
  "length r = length cols \<Longrightarrow> map fst (filter (\<lambda>(c, v). P c) (zip cols r)) = filter P cols"
  by (induction r cols rule: list_induct2) auto

lemma zip_filter_cols:
  assumes "length r = length cols"
  shows "zip (filter P cols) (map snd (filter (\<lambda>(c, v). P c) (zip cols r)))
           = filter (\<lambda>(c, v). P c) (zip cols r)"
proof -
  have "zip (map fst (filter (\<lambda>(c, v). P c) (zip cols r))) (map snd (filter (\<lambda>(c, v). P c) (zip cols r)))
          = filter (\<lambda>(c, v). P c) (zip cols r)"
    by (rule zip_map_fst_snd)
  then show ?thesis by (simp add: fst_filter_zip [OF assms])
qed

lemma map_of_filter_key:
  "P k \<Longrightarrow> map_of (filter (\<lambda>(c, v). P c) xs) k = map_of xs k"
  by (induction xs) auto

lemma cell_filter:
  assumes "length r = length cols" and "P c"
  shows "cell (filter P cols) (map snd (filter (\<lambda>(c, v). P c) (zip cols r))) c = cell cols r c"
  by (simp add: cell_def zip_filter_cols [OF assms(1)] map_of_filter_key [of P, OF assms(2)])

lemma cell_Some:
  assumes "length r = length cols" and "c \<in> set cols"
  shows "\<exists>v. cell cols r c = Some v"
proof -
  have "c \<in> fst ` set (zip cols r)" using assms by (simp add: set_zip_leftD flip: set_map)
  then show ?thesis unfolding cell_def by (metis domIff dom_map_of_conv_image_fst not_Some_eq)
qed

lemma drop_cols_Inr:
  assumes "drop_cols df labels = Inr df'"
  shows "index df' = index df"
    and "columns df' = filter (\<lambda>c. c \<notin> set labels) (columns df)"
    and "vals df' = map (\<lambda>r. map snd (filter (\<lambda>(c, v). c \<notin> set labels) (zip (columns df) r))) (vals df)"
  using assms by (auto simp: drop_cols_def split: if_splits)

lemma rectangular_row:
  "rectangular df \<Longrightarrow> i < length (vals df) \<Longrightarrow> length (vals df ! i) = length (columns df)"
  by (simp add: rectangular_def list_all_length)

lemma rectangular_drop_cols:
  assumes "rectangular df" and "drop_cols df labels = Inr df'"
  shows "rectangular df'"
proof -
  have "length (map snd (filter (\<lambda>(c, v). c \<notin> set labels) (zip (columns df) r)))
          = length (filter (\<lambda>c. c \<notin> set labels) (columns df))"
    if "length r = length (columns df)" for r :: "real list"
    using fst_filter_zip [OF that, of "\<lambda>c. c \<notin> set labels"] by (metis length_map)
  with assms(1) show ?thesis
    by (simp add: rectangular_def drop_cols_Inr [OF assms(2)] list_all_iff)
qed

lemma drop_cols_cell:
  assumes "rectangular df" and "drop_cols df labels = Inr df'"
    and "i < length (vals df)" and "c \<notin> set labels"
  shows "cell (columns df') (vals df' ! i) c = cell (columns df) (vals df ! i) c"
  using assms(3) cell_filter [OF rectangular_row [OF assms(1,3)], of "\<lambda>c. c \<notin> set labels" c] assms(4)
  by (simp add: drop_cols_Inr [OF assms(2)])

lemma getitem_Inr:
  assumes "getitem df key = Inr s"
  shows "key \<in> set (columns df)" and "sindex s = index df" and "sname s = key"
    and "svals s = map (\<lambda>r. the (cell (columns df) r key)) (vals df)"
  using assms by (auto simp: getitem_def split: if_splits)

text \<open>
  C10. Splitting features from the target leaves the shuffled frame \<open>data\<close> as it was; \<open>X\<close>
  has exactly the columns of \<open>data\<close> that are neither in the drop list nor the target, in
  the same order; \<open>X\<close> and \<open>Y\<close> keep the row labels of \<open>data\<close> and have one entry per
  row; and in every row the cells of \<open>X\<close> and the entry of \<open>Y\<close> are those of \<open>data\<close>.
\<close>

theorem cell3_separation:
  assumes "rectangular d" and "cell3 d = Inr e"
  shows "data e = d \<and>
         columns (X e) = filter (\<lambda>c. c \<notin> set dropvar_list \<and> c \<noteq> ''churndep'') (columns d) \<and>
         index (X e) = index d \<and> sindex (Y e) = index d \<and>
         length (vals (X e)) = length (vals d) \<and> length (svals (Y e)) = length (vals d) \<and>
         (\<forall>i<length (vals d).
            (\<forall>c\<in>set (columns (X e)).
               cell (columns (X e)) (vals (X e) ! i) c = cell (columns d) (vals d ! i) c) \<and>
            cell (columns d) (vals d ! i) ''churndep'' = Some (svals (Y e) ! i))"
proof -
  from assms(2) obtain sub x y folds where
    sub: "drop_cols d dropvar_list = Inr sub" and
    x: "drop_cols sub [''churndep''] = Inr x" and
    y: "getitem sub ''churndep'' = Inr y" and
    e: "e = \<lparr>data = d, data_subset = sub, X = x, Y = y, kfolds = folds\<rparr>"
    by (auto simp: cell3_def and_then_def split: sum.splits)
  have rsub: "rectangular sub" by (rule rectangular_drop_cols [OF assms(1) sub])
  have len_sub: "length (vals sub) = length (vals d)" by (simp add: drop_cols_Inr [OF sub])
  have cols: "columns x = filter (\<lambda>c. c \<notin> set dropvar_list \<and> c \<noteq> ''churndep'') (columns d)"
    by (simp add: drop_cols_Inr [OF x] drop_cols_Inr [OF sub] conj_commute)
  have target: "''churndep'' \<notin> set dropvar_list" by (simp add: dropvar_list_def)
  have rows: "(\<forall>c\<in>set (columns x). cell (columns x) (vals x ! i) c = cell (columns d) (vals d ! i) c) \<and>
              cell (columns d) (vals d ! i) ''churndep'' = Some (svals y ! i)"
    if i: "i < length (vals d)" for i
  proof
    show "\<forall>c\<in>set (columns x). cell (columns x) (vals x ! i) c = cell (columns d) (vals d ! i) c"
    proof
      fix c assume "c \<in> set (columns x)"
      then have c: "c \<notin> set dropvar_list" "c \<notin> set [''churndep'']" by (auto simp: cols)
      have "cell (columns x) (vals x ! i) c = cell (columns sub) (vals sub ! i) c"
        using drop_cols_cell [OF rsub x _ c(2)] i len_sub by simp
      also have "\<dots> = cell (columns d) (vals d ! i) c"
        by (rule drop_cols_cell [OF assms(1) sub i c(1)])
      finally show "cell (columns x) (vals x ! i) c = cell (columns d) (vals d ! i) c" .
    qed
  next
    have eq: "cell (columns sub) (vals sub ! i) ''churndep'' = cell (columns d) (vals d ! i) ''churndep''"
      by (rule drop_cols_cell [OF assms(1) sub i target])
    have "length (vals sub ! i) = length (columns sub)"
      using rectangular_row [OF rsub] i len_sub by simp
    from cell_Some [OF this getitem_Inr(1) [OF y]]
    obtain v where v: "cell (columns sub) (vals sub ! i) ''churndep'' = Some v" ..
    have "svals y ! i = the (cell (columns sub) (vals sub ! i) ''churndep'')"
      using i len_sub by (simp add: getitem_Inr(4) [OF y])
    with v eq show "cell (columns d) (vals d ! i) ''churndep'' = Some (svals y ! i)" by simp
  qed
  show ?thesis
    using rows cols
    by (simp add: e drop_cols_Inr(1,3) [OF x] drop_cols_Inr(1,3) [OF sub] getitem_Inr(2,4) [OF y])
qed

lemma cell3_churn_sample: "cell3 churn_sample = Inr churn_sample_env"
  by (simp add: cell3_def and_then_def drop_cols_def getitem_def cell_def dropvar_list_def
      churn_sample_def churn_sample_env_def churn_columns_def shape0_def KFold_def fold_sizes_def upt_rec)

lemma rectangular_churn_sample: "rectangular churn_sample"
  by (simp add: rectangular_def churn_sample_def churn_columns_def)

theorem cell3_separation_witness:
  "rectangular churn_sample \<and> cell3 churn_sample = Inr churn_sample_env \<and>
   data churn_sample_env = churn_sample \<and>
   columns (X churn_sample_env) = [''revenue'', ''outcalls'', ''months'', ''eqpdays'', ''webcap'', ''retcalls''] \<and>
   index (X churn_sample_env) = [5, 2, 7, 0, 3, 6, 1, 4] \<and>
   sindex (Y churn_sample_env) = [5, 2, 7, 0, 3, 6, 1, 4] \<and>
   svals (Y churn_sample_env) = [0, 1, 1, 0, 0, 1, 1, 0]"
  using cell3_separation [OF rectangular_churn_sample cell3_churn_sample]
    rectangular_churn_sample cell3_churn_sample
  by (simp add: churn_sample_env_def)

subsection \<open>The fold partition\<close>

lemma concat_test_indices: "concat (test_indices c sizes) = [c..<c + sum_list sizes]"
proof (induction sizes arbitrary: c)
  case Nil
  show ?case by simp
next
  case (Cons s ss)
  have "[c..<c + s + sum_list ss] = [c..<c + s] @ [c + s..<c + s + sum_list ss]"
    by (rule upt_add_eq_append) simp
  with Cons show ?case by (simp add: add.assoc)
qed

lemma length_test_indices: "length (test_indices c sizes) = length sizes"
  by (induction sizes arbitrary: c) auto

lemma test_indices_nonempty:
  "list_all (\<lambda>s. 0 < s) sizes \<Longrightarrow> list_all (\<lambda>t. t \<noteq> []) (test_indices c sizes)"
  by (induction sizes arbitrary: c) auto

lemma sum_list_fold_sizes:
  assumes "0 < k"
  shows "sum_list (fold_sizes n k) = n"
proof -
  have "sum_list (fold_sizes n k) = (\<Sum>i = 0..<k. n div k + (if i < n mod k then 1 else 0))"
    by (simp add: fold_sizes_def interv_sum_list_conv_sum_set_nat)
  also have "\<dots> = k * (n div k) + (\<Sum>i = 0..<k. if i < n mod k then 1 else 0)"
    by (simp add: sum.distrib)
  also have "(\<Sum>i = 0..<k. if i < n mod k then 1 else (0::nat)) = card ({0..<k} \<inter> {i. i < n mod k})"
    by (simp add: sum.If_cases)
  also have "{0..<k} \<inter> {i. i < n mod k} = {0..<n mod k}"
  proof -
    have "n mod k < k" using assms by simp
    then show ?thesis by auto
  qed
  finally show ?thesis by simp
qed

lemma fold_sizes_pos:
  assumes "0 < k" "k \<le> n"
  shows "list_all (\<lambda>s. 0 < s) (fold_sizes n k)"
proof -
  have "0 < n div k" using assms by (simp add: div_greater_zero_iff)
  then show ?thesis by (simp add: fold_sizes_def list_all_iff)
qed

lemma distinct_concat_nth_disjoint:
  "distinct (concat xss) \<Longrightarrow> j < j' \<Longrightarrow> j' < length xss \<Longrightarrow> set (xss ! j) \<inter> set (xss ! j') = {}"
proof (induction xss arbitrary: j j')
  case Nil
  then show ?case by simp
next
  case (Cons xs xss)
  show ?case
  proof (cases j)
    case 0
    with Cons.prems obtain m where m: "j' = Suc m" "m < length xss" by (cases j') auto
    then have "set (xss ! m) \<subseteq> \<Union> (set ` set xss)" by (meson UN_upper nth_mem)
    moreover have "set xs \<inter> \<Union> (set ` set xss) = {}" using Cons.prems(1) by simp
    ultimately show ?thesis using 0 m by auto
  next
    case (Suc i)
    with Cons.prems obtain m where m: "j' = Suc m" "i < m" "m < length xss" by (cases j') auto
    with Cons.IH [of i m] Cons.prems(1) Suc show ?thesis by simp
  qed
qed

text \<open>
  C2. For \<open>n\<close> rows and a fold count \<open>k\<close> with \<open>2 \<le> k \<le> n\<close>, \<open>KFold\<close> returns \<open>k\<close> folds whose
  test groups, put one after the other, are exactly \<open>0, \<dots>, n - 1\<close>: they are non-empty,
  pairwise disjoint and cover every row; every row is in the test group of exactly one
  fold, and in the training set of a fold exactly when it is not in its test group.
\<close>

theorem KFold_partition:
  assumes "2 \<le> k" and "k \<le> n"
  shows "\<exists>folds. KFold n k = Inr folds \<and> length folds = k \<and>
           concat (map snd folds) = [0..<n] \<and>
           (\<forall>j<k. snd (folds ! j) \<noteq> [] \<and>
                  fst (folds ! j) = filter (\<lambda>i. i \<notin> set (snd (folds ! j))) [0..<n]) \<and>
           (\<forall>j<k. \<forall>j'<k. j \<noteq> j' \<longrightarrow> set (snd (folds ! j)) \<inter> set (snd (folds ! j')) = {}) \<and>
           (\<forall>i<n. \<exists>!j. j < k \<and> i \<in> set (snd (folds ! j))) \<and>
           (\<forall>i<n. \<forall>j<k. i \<in> set (fst (folds ! j)) \<longleftrightarrow> i \<notin> set (snd (folds ! j)))"
proof -
  define tests where "tests = test_indices 0 (fold_sizes n k)"
  define folds where "folds = map (\<lambda>test. (filter (\<lambda>i. i \<notin> set test) [0..<n], test)) tests"
  have k0: "0 < k" using assms by simp
  have run: "KFold n k = Inr folds"
    using assms by (simp add: KFold_def folds_def tests_def)
  have len_tests: "length tests = k"
    by (simp add: tests_def length_test_indices fold_sizes_def)
  have len: "length folds = k"
    by (simp add: folds_def len_tests)
  have snd_folds: "map snd folds = tests"
    by (simp add: folds_def comp_def)
  have cover: "concat (map snd folds) = [0..<n]"
    by (simp add: snd_folds tests_def concat_test_indices sum_list_fold_sizes [OF k0])
  have nth_fold: "folds ! j = (filter (\<lambda>i. i \<notin> set (tests ! j)) [0..<n], tests ! j)" if "j < k" for j
    using that by (simp add: folds_def len_tests)
  have nonempty: "tests ! j \<noteq> []" if "j < k" for j
  proof -
    have "list_all (\<lambda>t. t \<noteq> []) tests"
      unfolding tests_def by (rule test_indices_nonempty) (rule fold_sizes_pos [OF k0 assms(2)])
    with that len_tests show ?thesis by (simp add: list_all_length)
  qed
  have shape: "\<forall>j<k. snd (folds ! j) \<noteq> [] \<and>
                  fst (folds ! j) = filter (\<lambda>i. i \<notin> set (snd (folds ! j))) [0..<n]"
    by (simp add: nth_fold nonempty)
  have dist: "distinct (concat tests)"
    using cover by (simp add: snd_folds)
  have disj: "set (tests ! j) \<inter> set (tests ! j') = {}" if "j < k" "j' < k" "j \<noteq> j'" for j j'
  proof (cases "j < j'")
    case True
    then show ?thesis using distinct_concat_nth_disjoint [OF dist, of j j'] that len_tests by simp
  next
    case False
    with that have "j' < j" by simp
    then show ?thesis using distinct_concat_nth_disjoint [OF dist, of j' j] that len_tests by auto
  qed
  have disjoint: "\<forall>j<k. \<forall>j'<k. j \<noteq> j' \<longrightarrow> set (snd (folds ! j)) \<inter> set (snd (folds ! j')) = {}"
    by (simp add: nth_fold disj)
  have once: "\<exists>!j. j < k \<and> i \<in> set (snd (folds ! j))" if "i < n" for i
  proof -
    from that have "i \<in> set (concat tests)" using cover by (simp add: snd_folds)
    then obtain t where "t \<in> set tests" "i \<in> set t" by auto
    then obtain j where j: "j < k" "i \<in> set (tests ! j)"
      using len_tests by (auto simp: in_set_conv_nth)
    show ?thesis
    proof (rule ex1I [of _ j])
      show "j < k \<and> i \<in> set (snd (folds ! j))" using j by (simp add: nth_fold)
    next
      fix j' assume a: "j' < k \<and> i \<in> set (snd (folds ! j'))"
      then have "j' < k" and "i \<in> set (tests ! j')" by (auto simp: nth_fold)
      with j disj [of j j'] show "j' = j" by auto
    qed
  qed
  have train: "\<forall>i<n. \<forall>j<k. i \<in> set (fst (folds ! j)) \<longleftrightarrow> i \<notin> set (snd (folds ! j))"
    by (simp add: nth_fold)
  from run len cover shape disjoint once train show ?thesis by blast
qed

theorem KFold_partition_witness:
  "(2::nat) \<le> 4 \<and> (4::nat) \<le> 10 \<and>
   (\<exists>folds. KFold 10 4 = Inr folds \<and> length folds = 4 \<and> concat (map snd folds) = [0..<10] \<and>
      map snd folds = [[0, 1, 2], [3, 4, 5], [6, 7], [8, 9]])"
proof -
  have a: "(2::nat) \<le> 4" and b: "(4::nat) \<le> 10" by simp_all
  have c: "KFold 10 4 = Inr [([3, 4, 5, 6, 7, 8, 9], [0, 1, 2]), ([0, 1, 2, 6, 7, 8, 9], [3, 4, 5]),
             ([0, 1, 2, 3, 4, 5, 8, 9], [6, 7]), ([0, 1, 2, 3, 4, 5, 6, 7], [8, 9])]"
    by (simp add: KFold_def fold_sizes_def upt_rec)
  from KFold_partition [OF a b] c show ?thesis by auto
qed

subsection \<open>What cell 3 checks\<close>

lemma KFold_tests_nonempty:
  assumes "KFold n k = Inr folds"
  shows "list_all (\<lambda>(train, test). test \<noteq> []) folds"
proof -
  from assms have k: "0 < k" "k \<le> n"
    and folds: "folds = map (\<lambda>test. (filter (\<lambda>i. i \<notin> set test) [0..<n], test))
                          (test_indices 0 (fold_sizes n k))"
    by (auto simp: KFold_def split: if_splits)
  have "list_all (\<lambda>t. t \<noteq> []) (test_indices 0 (fold_sizes n k))"
    by (rule test_indices_nonempty) (rule fold_sizes_pos [OF k])
  then show ?thesis by (simp add: folds list_all_iff)
qed

text \<open>
  C4 (as the code has it). Cell 3 has no validation step of its own and no
  \<open>ConfigurationError\<close>: what fails is the library call that needs the missing thing. A
  column of the drop list or the target column that is not in the frame makes \<open>drop\<close>
  raise; fewer than four rows make \<open>KFold\<close> raise; in every other case the cell
  succeeds, and every fold has a non-empty validation group. The values of the target
  column are not looked at.
\<close>

theorem cell3_failures:
  "(\<not> set (dropvar_list @ [''churndep'']) \<subseteq> set (columns d) \<longrightarrow>
      cell3 d = Inl (ValueError ''labels not contained in axis'')) \<and>
   (set (dropvar_list @ [''churndep'']) \<subseteq> set (columns d) \<and> length (vals d) < 4 \<longrightarrow>
      cell3 d = Inl (ValueError ''Cannot have number of folds greater than the number of samples'')) \<and>
   (set (dropvar_list @ [''churndep'']) \<subseteq> set (columns d) \<and> 4 \<le> length (vals d) \<longrightarrow>
      (\<exists>v. cell3 d = Inr v \<and> list_all (\<lambda>(train, test). test \<noteq> []) (kfolds v)))"
proof (intro conjI impI)
  assume "\<not> set (dropvar_list @ [''churndep'']) \<subseteq> set (columns d)"
  then show "cell3 d = Inl (ValueError ''labels not contained in axis'')"
    by (auto simp: cell3_def and_then_def drop_cols_def list_ex_iff dropvar_list_def)
next
  assume "set (dropvar_list @ [''churndep'']) \<subseteq> set (columns d) \<and> length (vals d) < 4"
  then show "cell3 d = Inl (ValueError ''Cannot have number of folds greater than the number of samples'')"
    by (auto simp: cell3_def and_then_def drop_cols_def getitem_def KFold_def shape0_def list_ex_iff
        dropvar_list_def)
next
  assume "set (dropvar_list @ [''churndep'']) \<subseteq> set (columns d) \<and> 4 \<le> length (vals d)"
  then obtain v where v: "cell3 d = Inr v"
    by (auto simp: cell3_def and_then_def drop_cols_def getitem_def KFold_def shape0_def list_ex_iff
        dropvar_list_def)
  then have "KFold (shape0 (data_subset v)) 4 = Inr (kfolds v)"
    by (auto simp: cell3_def and_then_def split: sum.splits)
  from KFold_tests_nonempty [OF this] v
  show "\<exists>v. cell3 d = Inr v \<and> list_all (\<lambda>(train, test). test \<noteq> []) (kfolds v)" by blast
qed

theorem cell3_failures_witness:
  "cell3 \<lparr>index = [0], columns = [''revenue'', ''churndep''], vals = [[48, 1]]\<rparr>
     = Inl (ValueError ''labels not contained in axis'') \<and>
   cell3 \<lparr>index = [1, 0, 2], columns = churn_columns,
           vals = [[48, 10, 2, 30, 371, 1, 0, 0, 1, 1, 0, 0],
                   [31, 0, 0, 12, 240, 1, 1, 0, 0, 1, 0, 1],
                   [83, 25, 8, 17, 98, 1, 0, 1, 1, 1, 0, 1]]\<rparr>
     = Inl (ValueError ''Cannot have number of folds greater than the number of samples'') \<and>
   (\<exists>v. cell3 churn_multiclass = Inr v \<and> list_all (\<lambda>(train, test). test \<noteq> []) (kfolds v))"
  using cell3_failures [of "\<lparr>index = [0], columns = [''revenue'', ''churndep''], vals = [[48, 1]]\<rparr>"]
    cell3_failures [of "\<lparr>index = [1, 0, 2], columns = churn_columns,
           vals = [[48, 10, 2, 30, 371, 1, 0, 0, 1, 1, 0, 0],
                   [31, 0, 0, 12, 240, 1, 1, 0, 0, 1, 0, 1],
                   [83, 25, 8, 17, 98, 1, 0, 1, 1, 1, 0, 1]]\<rparr>"]
    cell3_failures [of churn_multiclass]
  by (simp add: dropvar_list_def churn_columns_def churn_multiclass_def)

text \<open>
  The target of \<open>churn_multiclass\<close> has the three values 0, 1 and 2, and cell 3 runs
  through.
\<close>

theorem target_not_checked:
  "map_sum id (\<lambda>v. unique (svals (Y v))) (cell3 churn_multiclass) = Inr [0, 1, 2]"
  by (simp add: cell3_def and_then_def drop_cols_def getitem_def cell_def dropvar_list_def unique_def
      churn_multiclass_def churn_columns_def shape0_def KFold_def fold_sizes_def upt_rec)

subsection \<open>Polynomial features of degree 1\<close>

lemma combinations_1: "combinations xs (Suc 0) = map (\<lambda>x. [x]) xs"
  by (induction xs) auto

lemma combinations_w_r_1: "combinations_w_r xs (Suc 0) = map (\<lambda>x. [x]) xs"
  by (induction xs) auto

lemma poly_combinations_degree_1:
  assumes "degree pf = 1"
  shows "poly_combinations n pf = (if include_bias pf then [[]] else []) @ map (\<lambda>j. [j]) [0..<n]"
proof -
  have "[0..<2] = [0, Suc 0]" and "[Suc 0..<2] = [Suc 0]"
    by (simp_all add: upt_rec)
  then show ?thesis
    using assms by (simp add: poly_combinations_def combinations_1 combinations_w_r_1)
qed

lemma row_columns: "length r = n \<Longrightarrow> map (\<lambda>c. prod_list (map (\<lambda>j. r ! j) c)) (map (\<lambda>j. [j]) [0..<n]) = r"
  using map_nth [of r] by (auto simp: comp_def)

lemma check_array_rows:
  assumes "xs \<noteq> []" and "0 < n" and "list_all (\<lambda>r. length r = n) xs"
  shows "check_array xs = Inr (length xs, n)"
  using assms by (cases xs) (auto simp: check_array_def)


lemma poly_transform_degree_1:
  assumes "degree pf = 1" and "xs \<noteq> []" and "0 < n" and "list_all (\<lambda>r. length r = n) xs"
  shows "poly_transform pf n xs = Inr (if include_bias pf then map (\<lambda>r. 1 # r) xs else xs)"
proof -
  have rows: "\<forall>r\<in>set xs. length r = n" using assms(4) by (simp add: list_all_iff)
  then have ok: "\<not> list_ex (\<lambda>r. length r \<noteq> n) xs" by (simp add: list_ex_iff)
  have "map (\<lambda>r. map (\<lambda>c. prod_list (map (\<lambda>j. r ! j) c)) (poly_combinations n pf)) xs
          = (if include_bias pf then map (\<lambda>r. 1 # r) xs else xs)"
  proof (cases "include_bias pf")
    case True
    have "map (\<lambda>r. map (\<lambda>c. prod_list (map (\<lambda>j. r ! j) c)) (poly_combinations n pf)) xs = map (\<lambda>r. 1 # r) xs"
      using rows by (intro map_cong refl) (simp add: poly_combinations_degree_1 [OF assms(1)] True row_columns del: map_map)
    with True show ?thesis by simp
  next
    case False
    have "map (\<lambda>r. map (\<lambda>c. prod_list (map (\<lambda>j. r ! j) c)) (poly_combinations n pf)) xs = map (\<lambda>r. r) xs"
      using rows by (intro map_cong refl) (simp add: poly_combinations_degree_1 [OF assms(1)] False row_columns del: map_map)
    with False show ?thesis by simp
  qed
  with ok show ?thesis
    by (simp add: poly_transform_def and_then_def check_array_rows [OF assms(2,3,4)])
qed

text \<open>
  C5 (as the code has it). With degree 1 the expansion of a matrix that has rows and
  columns returns the input columns unchanged and in order, after the constant column 1
  when \<open>include_bias\<close> is set, as it is in the notebook's
  \<^verbatim>\<open>PolynomialFeatures()\<close>; only without the bias column is it the identity. The flag
  \<open>interaction_only\<close> makes no difference at degree 1. A matrix without rows or without
  columns is refused.
\<close>

theorem poly_degree_1:
  assumes "degree pf = 1" and "list_all (\<lambda>r. length r = n) xs" and "xs \<noteq> []" and "0 < n"
  shows "poly_transform pf n xs = Inr (if include_bias pf then map (\<lambda>r. 1 # r) xs else xs) \<and>
         tset_params polyfeat [(''degree'', PInt 1), (''interaction_only'', PBool b)]
           = Inr \<lparr>degree = 1, interaction_only = b, include_bias = True\<rparr> \<and>
         poly_transform pf n [] = Inl (ValueError ''Found array with 0 sample(s)'') \<and>
         poly_transform pf k (map (\<lambda>r. []) xs) = Inl (ValueError ''Found array with 0 feature(s)'')"
proof (intro conjI)
  show "poly_transform pf n xs = Inr (if include_bias pf then map (\<lambda>r. 1 # r) xs else xs)"
    by (rule poly_transform_degree_1 [OF assms(1,3,4,2)])
  show "tset_params polyfeat [(''degree'', PInt 1), (''interaction_only'', PBool b)]
          = Inr \<lparr>degree = 1, interaction_only = b, include_bias = True\<rparr>"
    by (simp add: polyfeat_def PolynomialFeatures_init_def)
  show "poly_transform pf n [] = Inl (ValueError ''Found array with 0 sample(s)'')"
    by (simp add: poly_transform_def check_array_def and_then_def)
  show "poly_transform pf k (map (\<lambda>r. []) xs) = Inl (ValueError ''Found array with 0 feature(s)'')"
    using assms(3) by (cases xs) (simp_all add: poly_transform_def check_array_def and_then_def)
qed

theorem poly_degree_1_witness:
  "degree \<lparr>degree = 1, interaction_only = False, include_bias = True\<rparr> = 1 \<and>
   list_all (\<lambda>r. length r = 2) [[2, 3], [5, 7 :: real]] \<and>
   [[2, 3], [5, 7 :: real]] \<noteq> [] \<and> (0::nat) < 2 \<and>
   tset_params polyfeat [(''degree'', PInt 1), (''interaction_only'', PBool False)]
     = Inr \<lparr>degree = 1, interaction_only = False, include_bias = True\<rparr> \<and>
   poly_transform \<lparr>degree = 1, interaction_only = False, include_bias = True\<rparr> 2 [[2, 3], [5, 7]]
     = Inr [[1, 2, 3], [1, 5, 7]]"
  using poly_degree_1 [of "\<lparr>degree = 1, interaction_only = False, include_bias = True\<rparr>" 2
      "[[2, 3], [5, 7]]" False]
  by simp

text \<open>
  With the parameters of the grid point \<open>degree = 1\<close>, \<open>interaction_only = False\<close> the
  step fitted on the rows \<open>[2, 3]\<close> and \<open>[5, 7]\<close> does not return them unchanged.
\<close>

theorem bias_column_added:
  "map_sum id snd
     (and_then (tset_params polyfeat [(''degree'', PInt 1), (''interaction_only'', PBool False)])
        (\<lambda>pf. fit_transform polyfeat pf [[2, 3], [5, 7]] [1, 0]))
   = Inr [[1, 2, 3], [1, 5, 7]] \<and>
   [[1, 2, 3], [1, 5, 7]] \<noteq> [[2, 3], [5, 7 :: real]]"
  by (simp add: polyfeat_def PolynomialFeatures_init_def fit_transform_def and_then_def poly_fit_def
      poly_transform_def check_array_def poly_combinations_def upt_rec)

subsection \<open>The search\<close>

lemma and_then_Inr:
  "and_then r f = Inr w \<longleftrightarrow> (\<exists>v. r = Inr v \<and> f v = Inr w)"
  by (cases r) (auto simp: and_then_def)

lemma collect_map_Inr: "collect (map Inr vs) = Inr vs"
  by (induction vs) auto

lemma collect_Inr: "collect rs = Inr vs \<longleftrightarrow> rs = map Inr vs"
proof
  show "collect rs = Inr vs \<Longrightarrow> rs = map Inr vs"
  proof (induction rs arbitrary: vs)
    case Nil
    then show ?case by simp
  next
    case (Cons r rs)
    then show ?case by (cases r) (auto split: sum.splits)
  qed
next
  show "rs = map Inr vs \<Longrightarrow> collect rs = Inr vs" by (simp add: collect_map_Inr)
qed

lemma collect_Inl:
  "Inl e \<in> set rs \<Longrightarrow> \<exists>e'. collect rs = Inl e'"
proof (induction rs)
  case Nil
  then show ?case by simp
next
  case (Cons r rs)
  then show ?case by (cases r) (auto split: sum.splits)
qed

lemma evaluate_candidate_Inr:
  assumes "evaluate_candidate est auc xs ys folds parameters = Inr g"
  shows "\<exists>out. map (\<lambda>(train, test). fit_and_score est auc xs ys train test parameters) folds = map Inr out \<and>
           g = (parameters, mean_validation_score out, map fst out)"
  using assms by (auto simp: evaluate_candidate_def collect_Inr split: sum.splits if_splits)

lemma evaluate_candidate_params:
  "evaluate_candidate est auc xs ys folds parameters = Inr g \<Longrightarrow> fst g = parameters"
  by (auto dest: evaluate_candidate_Inr)

lemma hd_sort_key_least:
  assumes "sort_key f xs = b # rest" and "x \<in> set xs"
  shows "f b \<le> f x"
proof -
  have "sorted (map f (sort_key f xs))" by (rule sorted_sort_key)
  moreover have "x \<in> set (sort_key f xs)" using assms(2) by simp
  ultimately show ?thesis using assms(1) by auto
qed

lemma GridSearchCV_fit_Inr:
  assumes "GridSearchCV_fit est auc p folds xs ys = Inr gs"
  shows "cv gs = folds"
    and "map (evaluate_candidate est auc xs ys folds) (ParameterGrid p) = map Inr (grid_scores gs)"
    and "\<exists>g\<in>set (grid_scores gs). best_params gs = fst g \<and> best_score gs = fst (snd g)"
    and "\<forall>g\<in>set (grid_scores gs). fst (snd g) \<le> best_score gs"
proof -
  from assms obtain scores best rest m where
    scores: "collect (map (evaluate_candidate est auc xs ys folds) (ParameterGrid p)) = Inr scores" and
    sorted: "sort_key (\<lambda>(parameters, mean, fold_scores). - mean) scores = best # rest" and
    gs: "gs = \<lparr>cv = folds, grid_scores = scores, best_params = fst best,
               best_score = fst (snd best), best_estimator = m\<rparr>"
    by (auto simp: GridSearchCV_fit_def and_then_Inr split: if_splits sum.splits list.splits)
  show "cv gs = folds" by (simp add: gs)
  show "map (evaluate_candidate est auc xs ys folds) (ParameterGrid p) = map Inr (grid_scores gs)"
    using scores by (simp add: gs collect_Inr)
  have "best \<in> set (sort_key (\<lambda>(parameters, mean, fold_scores). - mean) scores)"
    by (simp add: sorted)
  then have "best \<in> set scores" by simp
  then show "\<exists>g\<in>set (grid_scores gs). best_params gs = fst g \<and> best_score gs = fst (snd g)"
    by (auto simp: gs)
  show "\<forall>g\<in>set (grid_scores gs). fst (snd g) \<le> best_score gs"
  proof
    fix g assume "g \<in> set (grid_scores gs)"
    then have "g \<in> set scores" by (simp add: gs)
    from hd_sort_key_least [OF sorted this] show "fst (snd g) \<le> best_score gs"
      by (simp add: gs case_prod_beta)
  qed
qed


lemma run_notebook_Inr:
  assumes "run_notebook LogisticRegression StandardScaler auc d = Inr nb"
  shows "cell3 d = Inr (prep nb)"
    and "GridSearchCV_fit LogisticRegression auc param_grid_lr
           (kfolds (prep nb)) (vals (X (prep nb))) (svals (Y (prep nb))) = Inr (lr_grid_search nb)"
    and "GridSearchCV_fit (pipeline StandardScaler LogisticRegression) auc parameters_scaler
           (kfolds (prep nb)) (vals (X (prep nb))) (svals (Y (prep nb))) = Inr (lr_grid_search_scaler nb)"
    and "GridSearchCV_fit (pipeline_poly StandardScaler LogisticRegression) auc parameters_poly
           (kfolds (prep nb)) (vals (X (prep nb))) (svals (Y (prep nb))) = Inr (lr_grid_search_poly nb)"
    and "best_1 nb = best_score (lr_grid_search nb)"
    and "best_2 nb = best_score (lr_grid_search_scaler nb)"
    and "best_3 nb = best_score (lr_grid_search_poly nb)"
  using assms by (auto simp: run_notebook_def and_then_Inr)


subsection \<open>The size of the grids\<close>

lemma length_grid_lr: "length (ParameterGrid param_grid_lr) = 12"
  by (simp add: ParameterGrid_def param_grid_lr_def C_values_def upto.simps length_product_lists)

lemma length_grid_scaler: "length (ParameterGrid parameters_scaler) = 12"
  by (simp add: ParameterGrid_def parameters_scaler_def C_values_def upto.simps length_product_lists)



subsection \<open>Scores between 0 and 1\<close>



lemma scorer_Inr:
  "scorer est auc m xs ys = Inr s \<Longrightarrow> \<exists>y_pred. roc_auc_score auc ys y_pred = Inr s"
  by (auto simp: scorer_def and_then_Inr split: if_splits)

lemma safe_indexing_Inr:
  "safe_indexing xs indices = Inr zs \<Longrightarrow> zs = map (\<lambda>i. xs ! i) indices"
  by (auto simp: safe_indexing_def split: if_splits)

lemma fit_and_score_Inr:
  assumes "fit_and_score est auc xs ys train test parameters = Inr (s, n)"
  shows "n = length test"
    and "\<exists>y_score. roc_auc_score auc (map (\<lambda>i. ys ! i) test) y_score = Inr s"
  using assms
  by (auto simp: fit_and_score_def and_then_Inr dest!: safe_indexing_Inr scorer_Inr)




subsection \<open>Comparing the three best scores\<close>

lemma grid_scores_evaluated:
  assumes "GridSearchCV_fit est auc p folds xs ys = Inr gs" and "g \<in> set (grid_scores gs)"
  shows "evaluate_candidate est auc xs ys folds (fst g) = Inr g"
proof -
  from assms(2) obtain i where i: "i < length (grid_scores gs)" "grid_scores gs ! i = g"
    by (auto simp: in_set_conv_nth)
  have len: "length (grid_scores gs) = length (ParameterGrid p)"
    using GridSearchCV_fit_Inr(2) [OF assms(1)] by (metis length_map)
  have e: "evaluate_candidate est auc xs ys folds (ParameterGrid p ! i) = Inr g"
    using GridSearchCV_fit_Inr(2) [OF assms(1)] i len by (metis nth_map)
  with evaluate_candidate_params [OF e] show ?thesis by simp
qed





subsection \<open>One fold assignment for the three searches\<close>

lemma cell3_Inr:
  assumes "cell3 d = Inr v"
  shows "data v = d" and "KFold (shape0 (data_subset v)) 4 = Inr (kfolds v)"
    and "shape0 (data_subset v) = shape0 d"
  using assms
  by (auto simp: cell3_def and_then_Inr shape0_def drop_cols_def split: if_splits)

lemma kfolds_of_row_count:
  assumes "cell3 d = Inr v" and "cell3 d' = Inr v'" and "shape0 d = shape0 d'"
  shows "kfolds v = kfolds v'"
  using cell3_Inr(2,3) [OF assms(1)] cell3_Inr(2,3) [OF assms(2)] assms(3) by simp

text \<open>
  C9. The folds are built once, by \<open>KFold\<close> from the number of rows of the frame and
  the fold count 4. Each of the three searches holds these folds as its \<open>cv\<close>, and every
  entry of its \<open>grid_scores\<close> is the evaluation of its grid point over exactly these folds.
\<close>

theorem searches_share_folds:
  assumes "run_notebook LogisticRegression StandardScaler auc d = Inr nb"
  shows "KFold (shape0 d) 4 = Inr (kfolds (prep nb)) \<and>
         cv (lr_grid_search nb) = kfolds (prep nb) \<and>
         cv (lr_grid_search_scaler nb) = kfolds (prep nb) \<and>
         cv (lr_grid_search_poly nb) = kfolds (prep nb) \<and>
         (\<forall>g\<in>set (grid_scores (lr_grid_search nb)).
            evaluate_candidate LogisticRegression auc
              (vals (X (prep nb))) (svals (Y (prep nb))) (kfolds (prep nb)) (fst g) = Inr g) \<and>
         (\<forall>g\<in>set (grid_scores (lr_grid_search_scaler nb)).
            evaluate_candidate (pipeline StandardScaler LogisticRegression) auc
              (vals (X (prep nb))) (svals (Y (prep nb))) (kfolds (prep nb)) (fst g) = Inr g) \<and>
         (\<forall>g\<in>set (grid_scores (lr_grid_search_poly nb)).
            evaluate_candidate (pipeline_poly StandardScaler LogisticRegression) auc
              (vals (X (prep nb))) (svals (Y (prep nb))) (kfolds (prep nb)) (fst g) = Inr g)"
proof -
  note r = run_notebook_Inr [OF assms]
  have "KFold (shape0 d) 4 = Inr (kfolds (prep nb))"
    using cell3_Inr(2,3) [OF r(1)] by simp
  then show ?thesis
    using GridSearchCV_fit_Inr(1) [OF r(2)] GridSearchCV_fit_Inr(1) [OF r(3)] GridSearchCV_fit_Inr(1) [OF r(4)]
      grid_scores_evaluated [OF r(2)] grid_scores_evaluated [OF r(3)] grid_scores_evaluated [OF r(4)]
    by simp
qed

subsection \<open>A fold with one class\<close>

lemma roc_auc_score_one_class:
  "length (unique y_true) = 1 \<Longrightarrow> \<exists>msg. roc_auc_score auc y_true y_score = Inl (ValueError msg)"
  by (simp add: roc_auc_score_def)

lemma fit_and_score_one_class:
  assumes "length (unique (map (\<lambda>i. ys ! i) test)) = 1"
  shows "\<exists>e. fit_and_score est auc xs ys train test parameters = Inl e"
proof (cases "fit_and_score est auc xs ys train test parameters")
  case (Inl e)
  then show ?thesis by simp
next
  case (Inr sn)
  then have "fit_and_score est auc xs ys train test parameters = Inr (fst sn, snd sn)" by simp
  from fit_and_score_Inr(2) [OF this] roc_auc_score_one_class [OF assms, of auc]
  have False by (metis Inl_Inr_False)
  then show ?thesis ..
qed

lemma evaluate_candidate_one_class:
  assumes "(train, test) \<in> set folds" and "length (unique (map (\<lambda>i. ys ! i) test)) = 1"
  shows "\<exists>e. evaluate_candidate est auc xs ys folds parameters = Inl e"
proof -
  from fit_and_score_one_class [OF assms(2)] obtain e where
    "fit_and_score est auc xs ys train test parameters = Inl e" by blast
  with assms(1) have "Inl e \<in> set (map (\<lambda>(train, test). fit_and_score est auc xs ys train test parameters) folds)"
    by force
  from collect_Inl [OF this] show ?thesis
    by (auto simp: evaluate_candidate_def)
qed

lemma GridSearchCV_fit_one_class:
  assumes "(train, test) \<in> set folds" and "length (unique (map (\<lambda>i. ys ! i) test)) = 1"
    and "ParameterGrid p \<noteq> []"
  shows "\<exists>e. GridSearchCV_fit est auc p folds xs ys = Inl e"
proof -
  from assms(3) obtain q qs where q: "ParameterGrid p = q # qs" by (cases "ParameterGrid p") auto
  from evaluate_candidate_one_class [OF assms(1,2)] obtain e where
    "evaluate_candidate est auc xs ys folds q = Inl e" by blast
  then have "Inl e \<in> set (map (evaluate_candidate est auc xs ys folds) (ParameterGrid p))"
    by (simp add: q)
  from collect_Inl [OF this] show ?thesis
    by (auto simp: GridSearchCV_fit_def)
qed

text \<open>
  C3 (as the code has it). When the test group of a fold has one class only, the scorer
  raises \<^verbatim>\<open>ValueError\<close> on that fold, whatever the scores; nothing catches it, and
  the run of the notebook ends with an exception instead of a report.
\<close>

theorem single_class_fold_aborts:
  assumes "cell3 d = Inr v" and "(train, test) \<in> set (kfolds v)"
    and "length (unique (map (\<lambda>i. svals (Y v) ! i) test)) = 1"
  shows "(\<forall>y_score. \<exists>msg. roc_auc_score auc (map (\<lambda>i. svals (Y v) ! i) test) y_score = Inl (ValueError msg)) \<and>
         (\<exists>e. run_notebook LogisticRegression StandardScaler auc d = Inl e)"
proof
  show "\<forall>y_score. \<exists>msg. roc_auc_score auc (map (\<lambda>i. svals (Y v) ! i) test) y_score = Inl (ValueError msg)"
    using roc_auc_score_one_class [OF assms(3)] by blast
next
  have "ParameterGrid param_grid_lr \<noteq> []" using length_grid_lr by auto
  from GridSearchCV_fit_one_class [OF assms(2,3) this] obtain e where
    "GridSearchCV_fit LogisticRegression auc param_grid_lr (kfolds v) (vals (X v)) (svals (Y v)) = Inl e"
    by blast
  then show "\<exists>e. run_notebook LogisticRegression StandardScaler auc d = Inl e"
    by (simp add: run_notebook_def and_then_def assms(1))
qed

lemma cell3_churn_degenerate: "cell3 churn_degenerate = Inr churn_degenerate_env"
  by (simp add: cell3_def and_then_def drop_cols_def getitem_def cell_def dropvar_list_def
      churn_degenerate_def churn_degenerate_env_def churn_columns_def shape0_def KFold_def fold_sizes_def upt_rec)

theorem single_class_fold_aborts_witness:
  "cell3 churn_degenerate = Inr churn_degenerate_env \<and>
   ([2, 3, 4, 5, 6, 7], [0, 1]) \<in> set (kfolds churn_degenerate_env) \<and>
   map (\<lambda>i. svals (Y churn_degenerate_env) ! i) [0, 1] = [1, 1] \<and>
   length (unique (map (\<lambda>i. svals (Y churn_degenerate_env) ! i) [0, 1])) = 1 \<and>
   (\<exists>e. run_notebook column_ranker no_scaling pair_auc churn_degenerate = Inl e)"
proof -
  have a: "([2, 3, 4, 5, 6, 7], [0, 1]) \<in> set (kfolds churn_degenerate_env)"
    by (simp add: churn_degenerate_env_def)
  have b: "map (\<lambda>i. svals (Y churn_degenerate_env) ! i) [0, 1] = [1, 1]"
    by (simp add: churn_degenerate_env_def)
  have c: "length (unique (map (\<lambda>i. svals (Y churn_degenerate_env) ! i) [0, 1])) = 1"
    unfolding b by (simp add: unique_def)
  from single_class_fold_aborts [OF cell3_churn_degenerate a c, of pair_auc column_ranker no_scaling]
  show ?thesis using a b c cell3_churn_degenerate by blast
qed

lemma ParameterGrid_param_grid_lr: "ParameterGrid param_grid_lr =
  [[(''C'', PFloat (1 / 1000)), (''penalty'', PStr ''l1'')],
   [(''C'', PFloat (1 / 1000)), (''penalty'', PStr ''l2'')],
   [(''C'', PFloat (1 / 100)), (''penalty'', PStr ''l1'')],
   [(''C'', PFloat (1 / 100)), (''penalty'', PStr ''l2'')],
   [(''C'', PFloat (1 / 10)), (''penalty'', PStr ''l1'')],
   [(''C'', PFloat (1 / 10)), (''penalty'', PStr ''l2'')],
   [(''C'', PInt 1), (''penalty'', PStr ''l1'')],
   [(''C'', PInt 1), (''penalty'', PStr ''l2'')],
   [(''C'', PInt 10), (''penalty'', PStr ''l1'')],
   [(''C'', PInt 10), (''penalty'', PStr ''l2'')],
   [(''C'', PInt 100), (''penalty'', PStr ''l1'')],
   [(''C'', PInt 100), (''penalty'', PStr ''l2'')]]"
  by (simp add: ParameterGrid_def param_grid_lr_def C_values_def pow10_def upto.simps)

text \<open>
  On the shuffled order \<open>churn_degenerate\<close> the run ends with the scorer's
  \<^verbatim>\<open>ValueError\<close>: no grid point is skipped and no best score is reported.
\<close>

theorem single_class_fold_raises:
  "run_notebook column_ranker no_scaling pair_auc churn_degenerate
     = Inl (ValueError ''Only one class present in y_true. ROC AUC score is not defined in that case.'')"
  unfolding run_notebook_def cell3_churn_degenerate GridSearchCV_fit_def ParameterGrid_param_grid_lr
  by (simp add: and_then_def evaluate_candidate_def fit_and_score_def safe_indexing_def scorer_def
      roc_auc_score_def unique_def column_ranker_def churn_degenerate_env_def)

subsection \<open>The searches on the sample rows\<close>

lemma grid_lr_points:
  "ParameterGrid param_grid_lr =
     map (\<lambda>(c, w). [(''C'', c), (''penalty'', w)]) (List.product C_values [PStr ''l1'', PStr ''l2''])"
  by (simp add: ParameterGrid_def param_grid_lr_def C_values_def upto.simps)

lemma grid_scaler_points:
  "ParameterGrid parameters_scaler =
     map (\<lambda>(c, w). [(''lr__C'', c), (''lr__penalty'', w)]) (List.product C_values [PStr ''l1'', PStr ''l2''])"
  by (simp add: ParameterGrid_def parameters_scaler_def C_values_def upto.simps)

lemma grid_poly_points:
  "ParameterGrid parameters_poly =
     map (\<lambda>(c, w, d, b). [(''lr__C'', c), (''lr__penalty'', w), (''polyfeat__degree'', PInt d),
                            (''polyfeat__interaction_only'', PBool b)])
       (List.product C_values (List.product [PStr ''l1'', PStr ''l2'']
          (List.product [1, 2] [True, False])))"
  by (simp add: ParameterGrid_def parameters_poly_def C_values_def upto.simps)

lemma GridSearchCV_fit_returns:
  assumes "length ys = length xs" and "folds \<noteq> []"
    and "map (evaluate_candidate est auc xs ys folds) (ParameterGrid p) = map Inr scores"
    and "\<forall>g\<in>set scores. \<exists>c m. set_params est (fst g) = Inr c \<and> fit est c xs ys = Inr m"
    and "\<forall>g\<in>set scores. fst (snd g) \<le> b" and "\<exists>g\<in>set scores. fst (snd g) = b"
  shows "\<exists>gs. GridSearchCV_fit est auc p folds xs ys = Inr gs \<and> best_score gs = b"
proof -
  from assms(6) have "scores \<noteq> []" by auto
  then have "sort_key (\<lambda>(parameters, mean, fold_scores). - mean) scores \<noteq> []"
    by (metis length_0_conv length_sort)
  then obtain best rest where
    best: "sort_key (\<lambda>(parameters, mean, fold_scores). - mean) scores = best # rest"
    by (cases "sort_key (\<lambda>(parameters, mean, fold_scores). - mean) scores") auto
  then have "best \<in> set (sort_key (\<lambda>(parameters, mean, fold_scores). - mean) scores)" by simp
  then have mem: "best \<in> set scores" by simp
  with assms(4) obtain c m where "set_params est (fst best) = Inr c" "fit est c xs ys = Inr m" by blast
  with assms(1,2,3) best obtain gs where gs: "GridSearchCV_fit est auc p folds xs ys = Inr gs"
    by (simp add: GridSearchCV_fit_def collect_map_Inr and_then_def)
  have "collect (map (evaluate_candidate est auc xs ys folds) (ParameterGrid p)) = Inr (grid_scores gs)"
    using GridSearchCV_fit_Inr(2) [OF gs] by (simp add: collect_map_Inr)
  with assms(3) have scores: "grid_scores gs = scores" by (simp add: collect_map_Inr)
  from GridSearchCV_fit_Inr(3) [OF gs] assms(5) have "best_score gs \<le> b" by (auto simp: scores)
  moreover from GridSearchCV_fit_Inr(4) [OF gs] assms(6) have "b \<le> best_score gs" by (auto simp: scores)
  ultimately show ?thesis using gs by auto
qed

lemma sample_folds_lr:
  "map (\<lambda>(train, test). fit_and_score column_ranker pair_auc (vals (X churn_sample_env))
          (svals (Y churn_sample_env)) train test [(''C'', c), (''penalty'', w)]) (kfolds churn_sample_env)
   = map Inr (if w = PStr ''l1'' then [(1, 2), (0, 2), (1, 2), (0, 2)] else [(1, 2), (1, 2), (0, 2), (1, 2)])"
  by (simp add: and_then_def fit_and_score_def safe_indexing_def scorer_def roc_auc_score_def unique_def
      column_ranker_def pair_auc_def churn_sample_env_def)

lemma sample_folds_scaler:
  "map (\<lambda>(train, test). fit_and_score (pipeline no_scaling column_ranker) pair_auc (vals (X churn_sample_env))
          (svals (Y churn_sample_env)) train test [(''lr__C'', c), (''lr__penalty'', w)]) (kfolds churn_sample_env)
   = map Inr (if w = PStr ''l1'' then [(1, 2), (0, 2), (1, 2), (0, 2)] else [(1, 2), (1, 2), (0, 2), (1, 2)])"
  by (simp add: and_then_def fit_and_score_def safe_indexing_def scorer_def roc_auc_score_def unique_def
      column_ranker_def pair_auc_def churn_sample_env_def pipeline_def Pipeline_def with_step_def
      final_step_def step_params_def no_scaling_def fit_transform_def)

lemma sample_folds_poly:
  assumes "d = 1 \<or> d = 2"
  shows "map (\<lambda>(train, test). fit_and_score (pipeline_poly no_scaling column_ranker) pair_auc
          (vals (X churn_sample_env)) (svals (Y churn_sample_env)) train test
          [(''lr__C'', c), (''lr__penalty'', w), (''polyfeat__degree'', PInt d),
           (''polyfeat__interaction_only'', PBool b)]) (kfolds churn_sample_env)
   = map Inr (if w = PStr ''l1'' then [(1, 2), (0, 2), (1, 2), (0, 2)] else [(1, 2), (1, 2), (0, 2), (1, 2)])"
proof -
  have one: "map (\<lambda>(train, test). fit_and_score (pipeline_poly no_scaling column_ranker) pair_auc
          (vals (X churn_sample_env)) (svals (Y churn_sample_env)) train test
          [(''lr__C'', c), (''lr__penalty'', w), (''polyfeat__degree'', PInt 1),
           (''polyfeat__interaction_only'', PBool b)]) (kfolds churn_sample_env)
   = map Inr (if w = PStr ''l1'' then [(1, 2), (0, 2), (1, 2), (0, 2)] else [(1, 2), (1, 2), (0, 2), (1, 2)])"
    by (cases b)
      (simp_all add: and_then_def fit_and_score_def safe_indexing_def scorer_def roc_auc_score_def unique_def
        column_ranker_def pair_auc_def churn_sample_env_def pipeline_poly_def Pipeline_def with_step_def
        final_step_def step_params_def no_scaling_def fit_transform_def polyfeat_def
        PolynomialFeatures_init_def poly_fit_def poly_transform_def check_array_def
        poly_combinations_def upt_rec)
  have two: "map (\<lambda>(train, test). fit_and_score (pipeline_poly no_scaling column_ranker) pair_auc
          (vals (X churn_sample_env)) (svals (Y churn_sample_env)) train test
          [(''lr__C'', c), (''lr__penalty'', w), (''polyfeat__degree'', PInt 2),
           (''polyfeat__interaction_only'', PBool b)]) (kfolds churn_sample_env)
   = map Inr (if w = PStr ''l1'' then [(1, 2), (0, 2), (1, 2), (0, 2)] else [(1, 2), (1, 2), (0, 2), (1, 2)])"
    by (cases b)
      (simp_all add: and_then_def fit_and_score_def safe_indexing_def scorer_def roc_auc_score_def unique_def
        column_ranker_def pair_auc_def churn_sample_env_def pipeline_poly_def Pipeline_def with_step_def
        final_step_def step_params_def no_scaling_def fit_transform_def polyfeat_def
        PolynomialFeatures_init_def poly_fit_def poly_transform_def check_array_def
        poly_combinations_def upt_rec)
  from assms one two show ?thesis by auto
qed


lemma sample_mean:
  "mean_validation_score (if w = PStr ''l1'' then [(1, 2), (0, 2), (1, 2), (0, 2)]
                          else [(1, 2), (1, 2), (0, 2), (1, 2)])
   = (if w = PStr ''l1'' then 1 / 2 else 3 / 4)"
  by (simp add: mean_validation_score_def)

lemma sample_candidate_lr:
  "evaluate_candidate column_ranker pair_auc (vals (X churn_sample_env)) (svals (Y churn_sample_env))
     (kfolds churn_sample_env) [(''C'', c), (''penalty'', w)]
   = Inr ([(''C'', c), (''penalty'', w)], if w = PStr ''l1'' then 1 / 2 else 3 / 4,
          if w = PStr ''l1'' then [1, 0, 1, 0] else [1, 1, 0, 1])"
  unfolding evaluate_candidate_def sample_folds_lr collect_map_Inr
  by (simp add: sample_mean)

lemma sample_candidate_scaler:
  "evaluate_candidate (pipeline no_scaling column_ranker) pair_auc (vals (X churn_sample_env))
     (svals (Y churn_sample_env)) (kfolds churn_sample_env) [(''lr__C'', c), (''lr__penalty'', w)]
   = Inr ([(''lr__C'', c), (''lr__penalty'', w)], if w = PStr ''l1'' then 1 / 2 else 3 / 4,
          if w = PStr ''l1'' then [1, 0, 1, 0] else [1, 1, 0, 1])"
  unfolding evaluate_candidate_def sample_folds_scaler collect_map_Inr
  by (simp add: sample_mean)

lemma sample_candidate_poly:
  assumes "d = 1 \<or> d = 2"
  shows "evaluate_candidate (pipeline_poly no_scaling column_ranker) pair_auc (vals (X churn_sample_env))
     (svals (Y churn_sample_env)) (kfolds churn_sample_env)
     [(''lr__C'', c), (''lr__penalty'', w), (''polyfeat__degree'', PInt d),
      (''polyfeat__interaction_only'', PBool b)]
   = Inr ([(''lr__C'', c), (''lr__penalty'', w), (''polyfeat__degree'', PInt d),
           (''polyfeat__interaction_only'', PBool b)], if w = PStr ''l1'' then 1 / 2 else 3 / 4,
          if w = PStr ''l1'' then [1, 0, 1, 0] else [1, 1, 0, 1])"
  unfolding evaluate_candidate_def sample_folds_poly [OF assms] collect_map_Inr
  by (simp add: sample_mean)

lemma poly_transform_returns:
  assumes "xs \<noteq> []" and "0 < n" and "list_all (\<lambda>r. length r = n) xs"
  shows "\<exists>xt. poly_transform pf n xs = Inr xt"
  using assms(3)
  by (simp add: poly_transform_def and_then_def check_array_rows [OF assms] list_all_iff list_ex_iff)

lemma sample_refit_poly:
  "\<exists>c m. set_params (pipeline_poly no_scaling column_ranker)
            [(''lr__C'', c'), (''lr__penalty'', w), (''polyfeat__degree'', PInt d),
             (''polyfeat__interaction_only'', PBool b)] = Inr c \<and>
          fit (pipeline_poly no_scaling column_ranker) c (vals (X churn_sample_env))
            (svals (Y churn_sample_env)) = Inr m"
proof -
  have "vals (X churn_sample_env) \<noteq> []" and "(0::nat) < 6"
    and "list_all (\<lambda>r. length r = 6) (vals (X churn_sample_env))"
    by (simp_all add: churn_sample_env_def)
  from poly_transform_returns [OF this]
  obtain xt where "poly_transform (PolynomialFeatures_init\<lparr>degree := d, interaction_only := b\<rparr>) 6
      (vals (X churn_sample_env)) = Inr xt" by blast
  moreover have "poly_fit pf (vals (X churn_sample_env)) = Inr 6" for pf
    by (simp add: poly_fit_def check_array_def and_then_def churn_sample_env_def)
  ultimately show ?thesis
    by (simp add: pipeline_poly_def Pipeline_def with_step_def final_step_def step_params_def
        no_scaling_def column_ranker_def fit_transform_def polyfeat_def and_then_def)
qed

lemma sample_search_lr:
  "\<exists>gs. GridSearchCV_fit column_ranker pair_auc param_grid_lr (kfolds churn_sample_env)
      (vals (X churn_sample_env)) (svals (Y churn_sample_env)) = Inr gs \<and> best_score gs = 3 / 4"
proof (rule GridSearchCV_fit_returns)
  let ?score = "\<lambda>(c, w). ([(''C'', c), (''penalty'', w)], if w = PStr ''l1'' then 1 / 2 else 3 / 4 :: real,
                           if w = PStr ''l1'' then [1, 0, 1, 0] else [1, 1, 0, 1 :: real])"
  let ?scores = "map ?score (List.product C_values [PStr ''l1'', PStr ''l2''])"
  show "length (svals (Y churn_sample_env)) = length (vals (X churn_sample_env))"
    by (simp add: churn_sample_env_def)
  show "kfolds churn_sample_env \<noteq> []"
    by (simp add: churn_sample_env_def)
  show "map (evaluate_candidate column_ranker pair_auc (vals (X churn_sample_env))
          (svals (Y churn_sample_env)) (kfolds churn_sample_env)) (ParameterGrid param_grid_lr)
        = map Inr ?scores"
    unfolding grid_lr_points by (simp add: sample_candidate_lr case_prod_beta comp_def)
  show "\<forall>g\<in>set ?scores. \<exists>c m. set_params column_ranker (fst g) = Inr c \<and>
          fit column_ranker c (vals (X churn_sample_env)) (svals (Y churn_sample_env)) = Inr m"
    by (simp add: column_ranker_def)
  show "\<forall>g\<in>set ?scores. fst (snd g) \<le> 3 / 4" by auto
  have "?score (PInt 1, PStr ''l2'') \<in> set ?scores"
    unfolding set_map by (rule imageI) (simp add: C_values_def pow10_def upto.simps)
  then show "\<exists>g\<in>set ?scores. fst (snd g) = 3 / 4" by (rule bexI [rotated]) simp
qed

lemma sample_search_scaler:
  "\<exists>gs. GridSearchCV_fit (pipeline no_scaling column_ranker) pair_auc parameters_scaler
      (kfolds churn_sample_env) (vals (X churn_sample_env)) (svals (Y churn_sample_env)) = Inr gs \<and>
      best_score gs = 3 / 4"
proof (rule GridSearchCV_fit_returns)
  let ?score = "\<lambda>(c, w). ([(''lr__C'', c), (''lr__penalty'', w)], if w = PStr ''l1'' then 1 / 2 else 3 / 4 :: real,
                           if w = PStr ''l1'' then [1, 0, 1, 0] else [1, 1, 0, 1 :: real])"
  let ?scores = "map ?score (List.product C_values [PStr ''l1'', PStr ''l2''])"
  show "length (svals (Y churn_sample_env)) = length (vals (X churn_sample_env))"
    by (simp add: churn_sample_env_def)
  show "kfolds churn_sample_env \<noteq> []"
    by (simp add: churn_sample_env_def)
  show "map (evaluate_candidate (pipeline no_scaling column_ranker) pair_auc (vals (X churn_sample_env))
          (svals (Y churn_sample_env)) (kfolds churn_sample_env)) (ParameterGrid parameters_scaler)
        = map Inr ?scores"
    unfolding grid_scaler_points by (simp add: sample_candidate_scaler case_prod_beta comp_def)
  show "\<forall>g\<in>set ?scores. \<exists>c m. set_params (pipeline no_scaling column_ranker) (fst g) = Inr c \<and>
          fit (pipeline no_scaling column_ranker) c (vals (X churn_sample_env)) (svals (Y churn_sample_env)) = Inr m"
    by (auto simp: pipeline_def Pipeline_def with_step_def final_step_def step_params_def
        no_scaling_def column_ranker_def fit_transform_def and_then_def)
  show "\<forall>g\<in>set ?scores. fst (snd g) \<le> 3 / 4" by auto
  have "?score (PInt 1, PStr ''l2'') \<in> set ?scores"
    unfolding set_map by (rule imageI) (simp add: C_values_def pow10_def upto.simps)
  then show "\<exists>g\<in>set ?scores. fst (snd g) = 3 / 4" by (rule bexI [rotated]) simp
qed

lemma sample_search_poly:
  "\<exists>gs. GridSearchCV_fit (pipeline_poly no_scaling column_ranker) pair_auc parameters_poly
      (kfolds churn_sample_env) (vals (X churn_sample_env)) (svals (Y churn_sample_env)) = Inr gs \<and>
      best_score gs = 3 / 4"
proof (rule GridSearchCV_fit_returns)
  let ?score = "\<lambda>(c, w, d, b). ([(''lr__C'', c), (''lr__penalty'', w), (''polyfeat__degree'', PInt d),
                                   (''polyfeat__interaction_only'', PBool b)],
                                 if w = PStr ''l1'' then 1 / 2 else 3 / 4 :: real,
                                 if w = PStr ''l1'' then [1, 0, 1, 0] else [1, 1, 0, 1 :: real])"
  let ?points = "List.product C_values (List.product [PStr ''l1'', PStr ''l2'']
                   (List.product [1, 2 :: int] [True, False]))"
  let ?scores = "map ?score ?points"
  show "length (svals (Y churn_sample_env)) = length (vals (X churn_sample_env))"
    by (simp add: churn_sample_env_def)
  show "kfolds churn_sample_env \<noteq> []"
    by (simp add: churn_sample_env_def)
  have "evaluate_candidate (pipeline_poly no_scaling column_ranker) pair_auc (vals (X churn_sample_env))
          (svals (Y churn_sample_env)) (kfolds churn_sample_env)
          ((\<lambda>(c, w, d, b). [(''lr__C'', c), (''lr__penalty'', w), (''polyfeat__degree'', PInt d),
                            (''polyfeat__interaction_only'', PBool b)]) q) = Inr (?score q)"
    if "q \<in> set ?points" for q
  proof -
    obtain c w d b where q: "q = (c, w, d, b)" by (cases q) auto
    with that have "d = 1 \<or> d = 2" by auto
    from sample_candidate_poly [OF this] show ?thesis by (simp add: q)
  qed
  then show "map (evaluate_candidate (pipeline_poly no_scaling column_ranker) pair_auc (vals (X churn_sample_env))
          (svals (Y churn_sample_env)) (kfolds churn_sample_env)) (ParameterGrid parameters_poly)
        = map Inr ?scores"
    unfolding grid_poly_points by (simp add: comp_def)
  show "\<forall>g\<in>set ?scores. \<exists>c m. set_params (pipeline_poly no_scaling column_ranker) (fst g) = Inr c \<and>
          fit (pipeline_poly no_scaling column_ranker) c (vals (X churn_sample_env)) (svals (Y churn_sample_env)) = Inr m"
    using sample_refit_poly by (auto simp: case_prod_beta)
  show "\<forall>g\<in>set ?scores. fst (snd g) \<le> 3 / 4" by auto
  have "?score (PInt 1, PStr ''l2'', 1, True) \<in> set ?scores"
    unfolding set_map by (rule imageI) (simp add: C_values_def pow10_def upto.simps)
  then show "\<exists>g\<in>set ?scores. fst (snd g) = 3 / 4" by (rule bexI [rotated]) simp
qed

lemma sample_run:
  "\<exists>nb. run_notebook column_ranker no_scaling pair_auc churn_sample = Inr nb \<and>
     prep nb = churn_sample_env \<and> best_1 nb = 3 / 4 \<and> best_2 nb = 3 / 4 \<and> best_3 nb = 3 / 4"
proof -
  from sample_search_lr obtain s1 where
    s1: "GridSearchCV_fit column_ranker pair_auc param_grid_lr (kfolds churn_sample_env)
           (vals (X churn_sample_env)) (svals (Y churn_sample_env)) = Inr s1" "best_score s1 = 3 / 4"
    by blast
  from sample_search_scaler obtain s2 where
    s2: "GridSearchCV_fit (pipeline no_scaling column_ranker) pair_auc parameters_scaler
           (kfolds churn_sample_env) (vals (X churn_sample_env)) (svals (Y churn_sample_env)) = Inr s2"
        "best_score s2 = 3 / 4"
    by blast
  from sample_search_poly obtain s3 where
    s3: "GridSearchCV_fit (pipeline_poly no_scaling column_ranker) pair_auc parameters_poly
           (kfolds churn_sample_env) (vals (X churn_sample_env)) (svals (Y churn_sample_env)) = Inr s3"
        "best_score s3 = 3 / 4"
    by blast
  show ?thesis
    by (simp add: run_notebook_def and_then_def cell3_churn_sample s1 s2 s3)
qed

subsection \<open>Two more runs on the sample rows\<close>
































subsection \<open>Pipelines whose scaler leaves the rows as they are\<close>









subsection \<open>A later variant with a lower best score\<close>


subsection \<open>Runs that satisfy the hypotheses\<close>




theorem searches_share_folds_witness:
  "\<exists>nb. run_notebook column_ranker no_scaling pair_auc churn_sample = Inr nb \<and>
     KFold (shape0 churn_sample) 4 = Inr (kfolds (prep nb)) \<and>
     kfolds (prep nb) = [([2, 3, 4, 5, 6, 7], [0, 1]), ([0, 1, 4, 5, 6, 7], [2, 3]),
                         ([0, 1, 2, 3, 6, 7], [4, 5]), ([0, 1, 2, 3, 4, 5], [6, 7])] \<and>
     cv (lr_grid_search nb) = kfolds (prep nb) \<and>
     cv (lr_grid_search_scaler nb) = kfolds (prep nb) \<and>
     cv (lr_grid_search_poly nb) = kfolds (prep nb)"
proof -
  from sample_run obtain nb where
    nb: "run_notebook column_ranker no_scaling pair_auc churn_sample = Inr nb"
    and prep: "prep nb = churn_sample_env"
    by blast
  have "kfolds (prep nb) = [([2, 3, 4, 5, 6, 7], [0, 1]), ([0, 1, 4, 5, 6, 7], [2, 3]),
                         ([0, 1, 2, 3, 6, 7], [4, 5]), ([0, 1, 2, 3, 4, 5], [6, 7])]"
    by (simp add: prep churn_sample_env_def)
  with searches_share_folds [OF nb] nb show ?thesis by blast
qed

end
